theory Spec2Isabelle
  imports Main "HOL-Library.Word"
begin

section \<open>Go values\<close>

text \<open>
  The model follows \<^verbatim>\<open>src/encoding.go\<close> (package tokenizer, the Encoding that carries
  \<^verbatim>\<open>Words\<close>). Conventions:

  \<^item> \<^verbatim>\<open>uint32\<close> is a 32-bit word; Go's \<^verbatim>\<open>int\<close> is a 64-bit word read as two's complement
    (compared with \<open><s\<close>, read with \<open>sint\<close>), so additions wrap as Go's do.
  \<^item> For Truncate, Pad, Token2Chars and TakeOverflowing a slice is modelled by the list
    of its visible elements; \<^verbatim>\<open>nil\<close> and the empty slice are both \<open>[]\<close> (Go's \<^verbatim>\<open>len\<close>,
    \<^verbatim>\<open>range\<close> and \<^verbatim>\<open>append\<close> do not tell them apart), and the capacity of a slice is its
    length. The statements about these functions are about the lengths and contents
    returned.
  \<^item> For MergeWith and Merge a slice is a slice header over a backing array in memory,
    with its capacity: MergeWith appends in place, and slices that share an array see
    each other's writes.
  \<^item> The \<^verbatim>\<open>uint\<close> arguments of Truncate and Pad are natural numbers. Truncate only
    compares them and forms \<^verbatim>\<open>maxLen - stride\<close> under the guard \<^verbatim>\<open>stride < maxLen\<close>; every
    product it forms afterwards is bounded by \<^verbatim>\<open>len(e.Ids)\<close>. Pad converts its
    \<^verbatim>\<open>targetLength\<close> with \<^verbatim>\<open>int(targetLength)\<close>; that wrap-around is written out in
    \<open>int_of_uint\<close>.
  \<^item> A run-time panic is an error value of the model, next to the error Truncate returns.
\<close>

type_synonym uint32 = "32 word"
type_synonym go_int = "64 word"

text \<open>
  Modelled from the spec: the declaration of the type \<^verbatim>\<open>Offsets\<close> is not among the
  sources; the specification gives it a start and an end. The source compares its fields
  \<^verbatim>\<open>Start\<close> and \<^verbatim>\<open>End\<close> with \<^verbatim>\<open>int\<close> variables and adds them to one (MergeWith,
  Char2Token), so both are Go ints; that they are not negative, as the specification has
  it, is a hypothesis where a statement needs it.
\<close>

record Offsets =
  Start :: go_int
  End :: go_int

datatype Encoding = Encoding
  (Ids: "uint32 list")
  (TypeIds: "uint32 list")
  (Tokens: "string list")
  (Offsets: "Offsets list")
  (SpecialTokenMask: "uint32 list")
  (AttentionMask: "uint32 list")
  (Overflowing: "Encoding list")
  (Words: "uint32 list")

datatype error = InvalidArgument | SliceBoundsOutOfRange | IndexOutOfRange

text \<open>The zero value of the struct: what a named result holds until it is assigned.\<close>

definition zeroEncoding :: Encoding where
  "zeroEncoding = Encoding [] [] [] [] [] [] [] []"

text \<open>Assignments to one field of a local Encoding.\<close>

definition set_Ids :: "Encoding \<Rightarrow> uint32 list \<Rightarrow> Encoding" where
  "set_Ids e v = Encoding v (TypeIds e) (Tokens e) (Offsets e) (SpecialTokenMask e)
     (AttentionMask e) (Overflowing e) (Words e)"

definition set_TypeIds :: "Encoding \<Rightarrow> uint32 list \<Rightarrow> Encoding" where
  "set_TypeIds e v = Encoding (Ids e) v (Tokens e) (Offsets e) (SpecialTokenMask e)
     (AttentionMask e) (Overflowing e) (Words e)"

definition set_Tokens :: "Encoding \<Rightarrow> string list \<Rightarrow> Encoding" where
  "set_Tokens e v = Encoding (Ids e) (TypeIds e) v (Offsets e) (SpecialTokenMask e)
     (AttentionMask e) (Overflowing e) (Words e)"

definition set_Offsets :: "Encoding \<Rightarrow> Offsets list \<Rightarrow> Encoding" where
  "set_Offsets e v = Encoding (Ids e) (TypeIds e) (Tokens e) v (SpecialTokenMask e)
     (AttentionMask e) (Overflowing e) (Words e)"

definition set_SpecialTokenMask :: "Encoding \<Rightarrow> uint32 list \<Rightarrow> Encoding" where
  "set_SpecialTokenMask e v = Encoding (Ids e) (TypeIds e) (Tokens e) (Offsets e) v
     (AttentionMask e) (Overflowing e) (Words e)"

definition set_AttentionMask :: "Encoding \<Rightarrow> uint32 list \<Rightarrow> Encoding" where
  "set_AttentionMask e v = Encoding (Ids e) (TypeIds e) (Tokens e) (Offsets e)
     (SpecialTokenMask e) v (Overflowing e) (Words e)"

definition set_Overflowing :: "Encoding \<Rightarrow> Encoding list \<Rightarrow> Encoding" where
  "set_Overflowing e v = Encoding (Ids e) (TypeIds e) (Tokens e) (Offsets e)
     (SpecialTokenMask e) (AttentionMask e) v (Words e)"

definition set_Words :: "Encoding \<Rightarrow> uint32 list \<Rightarrow> Encoding" where
  "set_Words e v = Encoding (Ids e) (TypeIds e) (Tokens e) (Offsets e)
     (SpecialTokenMask e) (AttentionMask e) (Overflowing e) v"

text \<open>Sequencing of steps that may panic: the first failure ends the run.\<close>

definition and_then :: "error + 'a \<Rightarrow> ('a \<Rightarrow> error + 'b) \<Rightarrow> error + 'b" where
  "and_then r f = (case r of Inl err \<Rightarrow> Inl err | Inr x \<Rightarrow> f x)"

text \<open>
  The slice expressions \<^verbatim>\<open>s[lo:hi]\<close> and \<^verbatim>\<open>s[lo:]\<close>. Go checks \<^verbatim>\<open>hi\<close> against the
  capacity; the model checks it against the length. In Truncate the two agree: each
  \<^verbatim>\<open>s[0:maxLen]\<close> is followed by \<^verbatim>\<open>s[maxLen:len(s)]\<close>, which panics whenever
  \<^verbatim>\<open>maxLen > len(s)\<close>, and getCurrentPart takes \<^verbatim>\<open>s[lo:hi]\<close> only after testing
  \<^verbatim>\<open>hi <= len(s)\<close>.
\<close>

definition go_slice :: "'a list \<Rightarrow> nat \<Rightarrow> nat \<Rightarrow> error + 'a list" where
  "go_slice s lo hi =
     (if lo \<le> hi \<and> hi \<le> length s then Inr (take (hi - lo) (drop lo s))
      else Inl SliceBoundsOutOfRange)"

definition go_slice_from :: "'a list \<Rightarrow> int \<Rightarrow> error + 'a list" where
  "go_slice_from s lo =
     (if 0 \<le> lo \<and> lo \<le> int (length s) then Inr (drop (nat lo) s)
      else Inl SliceBoundsOutOfRange)"

section \<open>TakeOverflowing and Token2Chars\<close>

text \<open>
  Every method of \<^verbatim>\<open>src/encoding.go\<close> has a value receiver, \<^verbatim>\<open>func (e Encoding) M(...)\<close>:
  the body works on a copy of the caller's struct, and an assignment to a field of
  \<^verbatim>\<open>e\<close> changes that copy only. A method is modelled by the function from the
  receiver's value to what the method returns; \<open>call_by_value\<close> is what the caller has
  after the call: the results, and its own Encoding as it was.
\<close>

definition call_by_value :: "(Encoding \<Rightarrow> 'r) \<Rightarrow> Encoding \<Rightarrow> 'r \<times> Encoding" where
  "call_by_value method e = (method e, e)"

text \<open>
  \<^verbatim>\<open>o := e.Overflowing; e.Overflowing = []Encoding{}; return o\<close>: the assignment is to
  the local copy \<open>e'\<close>, which is dropped at the return.
\<close>

definition TakeOverflowing :: "Encoding \<Rightarrow> Encoding list" where
  "TakeOverflowing e = (let ov = Overflowing e; e' = set_Overflowing e [] in ov)"

text \<open>
  \<^verbatim>\<open>if tokenIdx < 0 || tokenIdx > len(e.Offsets) { return retVal, false }
  else { return e.Offsets[tokenIdx], true }\<close>, the index expression panicking out of
  range.
\<close>

definition Token2Chars :: "Encoding \<Rightarrow> go_int \<Rightarrow> error + (Offsets \<times> bool)" where
  "Token2Chars e tokenIdx =
     (if tokenIdx <s 0 \<or> int (length (Offsets e)) < sint tokenIdx
        then Inr (\<lparr>Start = 0, End = 0\<rparr>, False)
      else if nat (sint tokenIdx) < length (Offsets e)
        then Inr (Offsets e ! nat (sint tokenIdx), True)
      else Inl IndexOutOfRange)"

section \<open>Truncate\<close>

text \<open>
  getCurrentPart, once for its three element types: the part of \<open>current\<close> with index
  \<open>idx\<close>, after the last \<open>stride\<close> elements of \<open>previous\<close>.
\<close>

definition getCurrentPart ::
  "'a list \<Rightarrow> 'a list \<Rightarrow> nat \<Rightarrow> nat \<Rightarrow> nat \<Rightarrow> error + 'a list" where
  "getCurrentPart previous current psize idx stride =
     and_then
       (if (idx + 1) * psize > length current then go_slice_from current (int (idx * psize))
        else go_slice current (idx * psize) ((idx + 1) * psize))
       (\<lambda>curr. and_then (go_slice_from previous (int (length previous) - int stride))
       (\<lambda>prev. Inr (prev @ curr)))"

text \<open>The seven locals \<^verbatim>\<open>oIds\<close>, ..., \<^verbatim>\<open>oWords\<close> that hold what lies past \<^verbatim>\<open>maxLen\<close>.\<close>

record overflow =
  oIds :: "uint32 list"
  oTypeIds :: "uint32 list"
  oTokens :: "string list"
  oOffsets :: "Offsets list"
  oSpeToks :: "uint32 list"
  oAttent :: "uint32 list"
  oWords :: "uint32 list"

text \<open>Lines 261 to 282: each array is cut at \<^verbatim>\<open>maxLen\<close>, and \<^verbatim>\<open>e\<close> keeps the prefixes.\<close>

definition split_at :: "'a list \<Rightarrow> nat \<Rightarrow> error + ('a list \<times> 'a list)" where
  "split_at s maxLen =
     and_then (go_slice s 0 maxLen) (\<lambda>new.
     and_then (go_slice s maxLen (length s)) (\<lambda>ov. Inr (new, ov)))"

definition truncate_split :: "Encoding \<Rightarrow> nat \<Rightarrow> error + (Encoding \<times> overflow)" where
  "truncate_split e maxLen =
     and_then (split_at (Ids e) maxLen) (\<lambda>(newIds, ovIds).
     and_then (split_at (TypeIds e) maxLen) (\<lambda>(newTypeIds, ovTypeIds).
     and_then (split_at (Tokens e) maxLen) (\<lambda>(newTokens, ovTokens).
     and_then (split_at (Offsets e) maxLen) (\<lambda>(newOffsets, ovOffsets).
     and_then (split_at (SpecialTokenMask e) maxLen) (\<lambda>(newSpeToks, ovSpeToks).
     and_then (split_at (AttentionMask e) maxLen) (\<lambda>(newAttent, ovAttent).
     and_then (split_at (Words e) maxLen) (\<lambda>(newWords, ovWords).
       Inr (Encoding newIds newTypeIds newTokens newOffsets newSpeToks newAttent
              (Overflowing e) newWords,
            \<lparr>oIds = ovIds, oTypeIds = ovTypeIds, oTokens = ovTokens, oOffsets = ovOffsets,
             oSpeToks = ovSpeToks, oAttent = ovAttent, oWords = ovWords\<rparr>))))))))"

text \<open>The struct literal of the loop body: one overflow Encoding.\<close>

definition overflow_part ::
  "Encoding \<Rightarrow> overflow \<Rightarrow> nat \<Rightarrow> nat \<Rightarrow> nat \<Rightarrow> error + Encoding" where
  "overflow_part prevEncoding ov partSize partId stride =
     and_then (getCurrentPart (Ids prevEncoding) (oIds ov) partSize partId stride) (\<lambda>ids.
     and_then (getCurrentPart (TypeIds prevEncoding) (oTypeIds ov) partSize partId stride) (\<lambda>typeIds.
     and_then (getCurrentPart (Tokens prevEncoding) (oTokens ov) partSize partId stride) (\<lambda>tokens.
     and_then (getCurrentPart (Offsets prevEncoding) (oOffsets ov) partSize partId stride) (\<lambda>offsets.
     and_then (getCurrentPart (SpecialTokenMask prevEncoding) (oSpeToks ov) partSize partId stride) (\<lambda>speToks.
     and_then (getCurrentPart (AttentionMask prevEncoding) (oAttent ov) partSize partId stride) (\<lambda>attent.
     and_then (getCurrentPart (Words prevEncoding) (oWords ov) partSize partId stride) (\<lambda>words.
       Inr (Encoding ids typeIds tokens offsets speToks attent [] words))))))))"

text \<open>
  The loop \<^verbatim>\<open>for int(partSize)*partId < len(oIds) { ... }\<close>. Nothing in the loop itself
  makes it stop when \<open>partSize = 0\<close>, so it is a partial function: \<open>None\<close> is a run
  that never returns.
\<close>

partial_function (option) truncate_loop ::
  "overflow \<Rightarrow> nat \<Rightarrow> nat \<Rightarrow> nat \<Rightarrow> Encoding \<Rightarrow> Encoding list \<Rightarrow> (error + Encoding list) option"
  where
  "truncate_loop ov partSize stride partId prevEncoding overflowing =
     (if partSize * partId < length (oIds ov) then
        (case overflow_part prevEncoding ov partSize partId stride of
           Inl err \<Rightarrow> Some (Inl err)
         | Inr part \<Rightarrow>
             truncate_loop ov partSize stride (partId + 1) part (overflowing @ [part]))
      else Some (Inr overflowing))"

declare truncate_loop.simps [code]

definition Truncate :: "Encoding \<Rightarrow> nat \<Rightarrow> nat \<Rightarrow> (error + Encoding) option" where
  "Truncate e maxLen stride =
     (if stride \<ge> maxLen \<or> maxLen = 0 then Some (Inl InvalidArgument)
      else if maxLen \<ge> length (Ids e) then Some (Inr e)
      else
        (case truncate_split e maxLen of
           Inl err \<Rightarrow> Some (Inl err)
         | Inr (e1, ov) \<Rightarrow>
             (case truncate_loop ov (maxLen - stride) stride 0 e1 [] of
                None \<Rightarrow> None
              | Some (Inl err) \<Rightarrow> Some (Inl err)
              | Some (Inr overflowing) \<Rightarrow> Some (Inr (set_Overflowing e1 overflowing)))))"

section \<open>MergeWith and Merge\<close>

text \<open>
  The first loop over \<^verbatim>\<open>e.Offsets\<close>: the largest \<^verbatim>\<open>End\<close> seen, starting from 0.
\<close>

definition startingOffset :: "Offsets list \<Rightarrow> go_int" where
  "startingOffset offs = foldl (\<lambda>acc x. if acc <s End x then End x else acc) 0 offs"

definition adjustedO :: "go_int \<Rightarrow> Offsets \<Rightarrow> Offsets" where
  "adjustedO start x = \<lparr>Start = Start x + start, End = End x + start\<rparr>"

lemma size_Overflowing: "x \<in> set (Overflowing e) \<Longrightarrow> size x < size e"
  by (cases e) (auto simp: less_Suc_eq_le dest: size_list_estimation')

subsection \<open>Slices in memory\<close>

text \<open>
  MergeWith appends to the slices of its receiver, and \<^verbatim>\<open>append\<close> writes into the backing
  array of its first argument whenever the capacity allows: what a call returns depends on
  which slices share an array. So here a slice is Go's slice header, the backing array
  (named by its index in a store), the offset of the first element, the length and the
  capacity, and a store holds the arrays of one element type.
\<close>

record slice_hdr =
  s_arr :: nat
  s_off :: nat
  s_len :: nat
  s_cap :: nat

type_synonym 'a store = "'a list list"

definition array_at :: "'a store \<Rightarrow> nat \<Rightarrow> 'a list" where
  "array_at st a = (if a < length st then st ! a else [])"

text \<open>The visible elements of a slice, and the element \<^verbatim>\<open>s[i]\<close>.\<close>

definition elems :: "'a store \<Rightarrow> slice_hdr \<Rightarrow> 'a list" where
  "elems st s = take (s_len s) (drop (s_off s) (array_at st (s_arr s)))"

definition cell :: "'a store \<Rightarrow> slice_hdr \<Rightarrow> nat \<Rightarrow> 'a" where
  "cell st s i = array_at st (s_arr s) ! (s_off s + i)"

definition write_at :: "'a list \<Rightarrow> nat \<Rightarrow> 'a list \<Rightarrow> 'a list" where
  "write_at a k vs = take k a @ vs @ drop (k + length vs) a"

text \<open>
  \<^verbatim>\<open>append(s, vs...)\<close>. When \<^verbatim>\<open>len(s) + len(vs)\<close> fits the capacity, the values are
  written into the array of \<open>s\<close> behind its last element and the result shares that array;
  otherwise a new array receives the elements of \<open>s\<close> and the values. Go leaves the
  capacity of the new array to the implementation: it is a parameter \<open>grow\<close> of the model
  (from the old capacity and the length needed), never less than the length needed; the
  cells past the length hold the zero value.
\<close>

definition append_many ::
  "(nat \<Rightarrow> nat \<Rightarrow> nat) \<Rightarrow> 'a \<Rightarrow> 'a store \<Rightarrow> slice_hdr \<Rightarrow> 'a list \<Rightarrow> slice_hdr \<times> 'a store" where
  "append_many grow zero st s vs =
     (if s_len s + length vs \<le> s_cap s then
        (s\<lparr>s_len := s_len s + length vs\<rparr>,
         st[s_arr s := write_at (array_at st (s_arr s)) (s_off s + s_len s) vs])
      else
        (let c = max (grow (s_cap s) (s_len s + length vs)) (s_len s + length vs)
         in (\<lparr>s_arr = length st, s_off = 0, s_len = s_len s + length vs, s_cap = c\<rparr>,
             st @ [elems st s @ vs @ replicate (c - (s_len s + length vs)) zero])))"

definition append1 ::
  "(nat \<Rightarrow> nat \<Rightarrow> nat) \<Rightarrow> 'a \<Rightarrow> 'a store \<Rightarrow> slice_hdr \<Rightarrow> 'a \<Rightarrow> slice_hdr \<times> 'a store" where
  "append1 grow zero st s v = append_many grow zero st s [v]"

text \<open>
  The loops \<^verbatim>\<open>for _, x := range src { s = append(s, f(x)) }\<close> of MergeWith: \<^verbatim>\<open>range\<close>
  fixes the header of \<open>src\<close> once and reads each element when its round comes, from the
  memory as the rounds before have left it.
\<close>

definition append_each ::
  "(nat \<Rightarrow> nat \<Rightarrow> nat) \<Rightarrow> 'a \<Rightarrow> ('a \<Rightarrow> 'a) \<Rightarrow> slice_hdr \<Rightarrow> 'a store \<Rightarrow> slice_hdr \<Rightarrow>
     slice_hdr \<times> 'a store" where
  "append_each grow zero f src st s =
     foldl (\<lambda>(s, st) i. append1 grow zero st s (f (cell st src i))) (s, st) [0..<s_len src]"

text \<open>
  The memory: one store for each element type of the struct's slices. An Encoding in
  memory is the struct as Go passes it, seven slice headers; the slice \<^verbatim>\<open>Overflowing\<close> is
  only read and rebuilt by MergeWith, never appended to in place, and is kept as the list
  of its elements.
\<close>

record heap =
  mem_u32 :: "uint32 store"
  mem_str :: "string store"
  mem_off :: "Offsets store"

datatype Enc = Enc
  (sIds: slice_hdr)
  (sTypeIds: slice_hdr)
  (sTokens: slice_hdr)
  (sOffsets: slice_hdr)
  (sSpecialTokenMask: slice_hdr)
  (sAttentionMask: slice_hdr)
  (sOverflowing: "Enc list")
  (sWords: slice_hdr)

lemma size_overflowing: "x \<in> set (sOverflowing e) \<Longrightarrow> size x < size e"
  by (cases e) (auto simp: less_Suc_eq_le dest: size_list_estimation')

text \<open>What an Encoding in memory holds: the Encoding of the other sections.\<close>

fun contents :: "heap \<Rightarrow> Enc \<Rightarrow> Encoding" where
  "contents h (Enc is ts ks os ss as ovs ws) =
     Encoding (elems (mem_u32 h) is) (elems (mem_u32 h) ts) (elems (mem_str h) ks) (elems (mem_off h) os)
       (elems (mem_u32 h) ss) (elems (mem_u32 h) as) (map (contents h) ovs) (elems (mem_u32 h) ws)"

text \<open>
  An Encoding built from literals: every slice gets an array of its own, of capacity equal
  to its length.
\<close>

definition alloc :: "'a store \<Rightarrow> 'a list \<Rightarrow> slice_hdr \<times> 'a store" where
  "alloc st xs = (\<lparr>s_arr = length st, s_off = 0, s_len = length xs, s_cap = length xs\<rparr>, st @ [xs])"

fun fresh :: "Encoding \<Rightarrow> heap \<Rightarrow> Enc \<times> heap"
  and fresh_list :: "Encoding list \<Rightarrow> heap \<Rightarrow> Enc list \<times> heap" where
  "fresh (Encoding is ts ks os ss as ovs ws) h =
     (let (is', u1) = alloc (mem_u32 h) is;
          (ts', u2) = alloc u1 ts;
          (ks', s1) = alloc (mem_str h) ks;
          (os', o1) = alloc (mem_off h) os;
          (ss', u3) = alloc u2 ss;
          (as', u4) = alloc u3 as;
          (ws', u5) = alloc u4 ws;
          (ovs', h') = fresh_list ovs \<lparr>mem_u32 = u5, mem_str = s1, mem_off = o1\<rparr>
      in (Enc is' ts' ks' os' ss' as' ovs' ws', h'))"
| "fresh_list [] h = ([], h)"
| "fresh_list (e # es) h =
     (let (e', h1) = fresh e h; (es', h2) = fresh_list es h1 in (e' # es', h2))"

definition empty_heap :: heap where
  "empty_heap = \<lparr>mem_u32 = [], mem_str = [], mem_off = []\<rparr>"

text \<open>
  The growth rule of the gc runtime for small slices, before it rounds the size up to an
  allocation class: twice the old capacity, or the length needed when that is more.
\<close>

definition grow_double :: "nat \<Rightarrow> nat \<Rightarrow> nat" where
  "grow_double c n = (if n > 2 * c then n else 2 * c)"

subsection \<open>MergeWith\<close>

text \<open>
  Step 3 and step 4 of MergeWith (lines 350 to 379): the appends to the fields of the
  receiver's copy \<open>e\<close>, in the order of the source, and the struct returned. \<open>overflowings\<close>
  is the list built by the steps before.
\<close>

definition merge_fields ::
  "(nat \<Rightarrow> nat \<Rightarrow> nat) \<Rightarrow> Enc \<Rightarrow> Enc \<Rightarrow> Enc list \<Rightarrow> heap \<Rightarrow> Enc \<times> heap" where
  "merge_fields grow e pair overflowings h =
     (let (ids', u1) = append_many grow 0 (mem_u32 h) (sIds e) (elems (mem_u32 h) (sIds pair));
          (typeIds', u2) = append_many grow 0 u1 (sTypeIds e) (elems u1 (sTypeIds pair));
          (tokens', s1) = append_many grow [] (mem_str h) (sTokens e) (elems (mem_str h) (sTokens pair));
          start = startingOffset (elems (mem_off h) (sOffsets e));
          (offsets', o1) =
            append_each grow \<lparr>Start = 0, End = 0\<rparr> (adjustedO start) (sOffsets pair) (mem_off h) (sOffsets e);
          (specialTokenMask', u3) =
            append_many grow 0 u2 (sSpecialTokenMask e) (elems u2 (sSpecialTokenMask pair));
          (attentionMask', u4) =
            append_many grow 0 u3 (sAttentionMask e) (elems u3 (sAttentionMask pair));
          wOffset = s_len (sWords e);
          (words', u5) = append_each grow 0 (\<lambda>w. w + of_nat wOffset) (sWords pair) u4 (sWords e)
      in (Enc ids' typeIds' tokens' offsets' specialTokenMask' attentionMask' overflowings words',
          \<lparr>mem_u32 = u5, mem_str = s1, mem_off = o1\<rparr>))"

text \<open>
  MergeWith, lines 326 to 382. In steps 1 and 2 the calls \<^verbatim>\<open>currO.MergeWith(pair)\<close>,
  \<^verbatim>\<open>currO.MergeWith(otherO)\<close> and \<^verbatim>\<open>newE.MergeWith(otherO)\<close> have a value receiver and
  their result is dropped: the Encoding appended to \<^verbatim>\<open>overflowings\<close> is the unmerged
  copy (\<open>currO\<close>, or \<open>e\<close> for \<^verbatim>\<open>newE\<close>), and what remains of each call is what it wrote
  into memory. So the calls thread the heap, in the order of the source, and the list of
  copies is built beside them.
\<close>

function MergeWith :: "(nat \<Rightarrow> nat \<Rightarrow> nat) \<Rightarrow> Enc \<Rightarrow> Enc \<Rightarrow> heap \<Rightarrow> Enc \<times> heap" where
  "MergeWith grow e pair h =
     (let h1 = foldl (\<lambda>h currO.
                  foldl (\<lambda>h otherO. snd (MergeWith grow currO otherO h))
                    (snd (MergeWith grow currO pair h)) (sOverflowing pair))
                h (sOverflowing e);
          overflowings1 =
            concat (map (\<lambda>currO. currO # map (\<lambda>otherO. currO) (sOverflowing pair))
              (sOverflowing e));
          h2 = foldl (\<lambda>h otherO. snd (MergeWith grow e otherO h)) h1 (sOverflowing pair);
          overflowings = overflowings1 @ map (\<lambda>otherO. e) (sOverflowing pair)
      in merge_fields grow e pair overflowings h2)"
  by pat_completeness auto
termination
  by (relation "measure (\<lambda>(grow, e, pair, h). size e + size pair)")
     (auto dest!: size_overflowing)

declare MergeWith.simps [simp del]

text \<open>Merge, lines 316 to 323.\<close>

definition Merge :: "(nat \<Rightarrow> nat \<Rightarrow> nat) \<Rightarrow> Enc \<Rightarrow> Enc list \<Rightarrow> heap \<Rightarrow> Enc \<times> heap" where
  "Merge grow e encodings h =
     foldl (\<lambda>(retVal, h) encoding. MergeWith grow retVal encoding h) (e, h) encodings"

subsection \<open>Valid slices, spare capacity and sharing\<close>













section \<open>Pad\<close>

text \<open>\<^verbatim>\<open>type PaddingDirection int\<close> with \<^verbatim>\<open>Left = iota\<close> and \<^verbatim>\<open>Right\<close> after it.\<close>

type_synonym PaddingDirection = go_int

definition Left :: PaddingDirection where
  "Left = 0"

definition Right :: PaddingDirection where
  "Right = 1"

text \<open>The conversion \<^verbatim>\<open>int(targetLength)\<close> of a 64-bit \<^verbatim>\<open>uint\<close>.\<close>

definition int_of_uint :: "nat \<Rightarrow> int" where
  "int_of_uint n = (if n < 2 ^ 63 then int n else int n - 2 ^ 64)"

text \<open>
  \<^verbatim>\<open>for i := 0; i < n; i++ { s[i] = v }\<close>, from \<open>i\<close> on. The bound \<open>n\<close> is evaluated
  on each round in the source, but no loop of Pad changes the length it reads.
\<close>

function fill :: "nat \<Rightarrow> nat \<Rightarrow> 'a \<Rightarrow> 'a list \<Rightarrow> error + 'a list" where
  "fill i n v s =
     (if i < n then (if i < length s then fill (i + 1) n v (s[i := v]) else Inl IndexOutOfRange)
      else Inr s)"
  by pat_completeness auto
termination
  by (relation "measure (\<lambda>(i, n, v, s). n - i)") auto

declare fill.simps [simp del]

text \<open>
  \<^verbatim>\<open>case Left\<close>, statement by statement. The second block appends \<^verbatim>\<open>e.Ids\<close>, which the
  first block has just replaced, to the new type ids; the loop over the new offsets
  runs to \<^verbatim>\<open>len(newIds)\<close>, which by then is the padded length.
\<close>

definition pad_left ::
  "Encoding \<Rightarrow> nat \<Rightarrow> uint32 \<Rightarrow> uint32 \<Rightarrow> string \<Rightarrow> error + Encoding" where
  "pad_left e padLength padId padTypeId padToken =
     and_then (fill 0 padLength padId (replicate padLength 0)) (\<lambda>newIds0.
       let newIds = newIds0 @ Ids e; e1 = set_Ids e newIds in
     and_then (fill 0 padLength padTypeId (replicate padLength 0)) (\<lambda>newTypeIds0.
       let newTypeIds = newTypeIds0 @ Ids e1; e2 = set_TypeIds e1 newTypeIds in
     and_then (fill 0 padLength padToken (replicate padLength [])) (\<lambda>newTokens0.
       let newTokens = newTokens0 @ Tokens e2; e3 = set_Tokens e2 newTokens in
     and_then (fill 0 padLength 1 (replicate padLength 0)) (\<lambda>newSpecialTokenMask0.
       let newSpecialTokenMask = newSpecialTokenMask0 @ SpecialTokenMask e3;
           e4 = set_SpecialTokenMask e3 newSpecialTokenMask in
     and_then (fill 0 padLength 0 (replicate padLength 0)) (\<lambda>newAttentionMask0.
       let newAttentionMask = newAttentionMask0 @ AttentionMask e4;
           e5 = set_AttentionMask e4 newAttentionMask in
     and_then (fill 0 (length newIds) \<lparr>Start = 0, End = 0\<rparr>
                 (replicate padLength \<lparr>Start = 0, End = 0\<rparr>)) (\<lambda>newOffsets0.
       let newOffsets = newOffsets0 @ Offsets e5; e6 = set_Offsets e5 newOffsets in
     and_then (fill 0 padLength 0 (replicate padLength 0)) (\<lambda>newWords0.
       let newWords = newWords0 @ Words e6 in
       Inr (set_Words e6 newWords))))))))"

text \<open>\<^verbatim>\<open>case Right\<close>: \<open>padLength\<close> rounds, each appending one filler to every array.\<close>

primrec pad_right :: "nat \<Rightarrow> Encoding \<Rightarrow> uint32 \<Rightarrow> uint32 \<Rightarrow> string \<Rightarrow> Encoding" where
  "pad_right 0 e padId padTypeId padToken = e"
| "pad_right (Suc k) e padId padTypeId padToken =
     pad_right k
       (Encoding (Ids e @ [padId]) (TypeIds e @ [padTypeId]) (Tokens e @ [padToken])
          (Offsets e @ [\<lparr>Start = 0, End = 0\<rparr>]) (SpecialTokenMask e @ [1])
          (AttentionMask e @ [0]) (Overflowing e) (Words e @ [0]))
       padId padTypeId padToken"

text \<open>The first failure among the results of a loop's rounds, if any.\<close>

fun first_panic :: "(error + 'a) list \<Rightarrow> error option" where
  "first_panic [] = None"
| "first_panic (Inl err # rs) = Some err"
| "first_panic (Inr x # rs) = first_panic rs"

text \<open>
  Pad: the loop over \<^verbatim>\<open>e.Overflowing\<close> calls \<^verbatim>\<open>o.Pad(...)\<close> on a copy of each entry and
  drops what the call returns (a panic in a call still ends the run); the early
  \<^verbatim>\<open>return\<close> is a bare one, so it returns the named result \<^verbatim>\<open>retVal\<close>, which nothing has
  assigned; a direction that is neither \<^verbatim>\<open>Left\<close> nor \<^verbatim>\<open>Right\<close> matches no case of the switch.
\<close>

function Pad ::
  "Encoding \<Rightarrow> nat \<Rightarrow> uint32 \<Rightarrow> uint32 \<Rightarrow> string \<Rightarrow> PaddingDirection \<Rightarrow> error + Encoding" where
  "Pad e targetLength padId padTypeId padToken direction =
     (case first_panic
             (map (\<lambda>ov. Pad ov targetLength padId padTypeId padToken direction) (Overflowing e)) of
        Some err \<Rightarrow> Inl err
      | None \<Rightarrow>
          if int (length (Ids e)) \<ge> int_of_uint targetLength then Inr zeroEncoding
          else
            (let padLength = nat (int_of_uint targetLength - int (length (Ids e))) in
             if direction = Left then pad_left e padLength padId padTypeId padToken
             else if direction = Right then Inr (pad_right padLength e padId padTypeId padToken)
             else Inr e))"
  by pat_completeness auto
termination
  by (relation "measure (\<lambda>(e, targetLength, padId, padTypeId, padToken, direction). size e)")
     (auto dest: size_Overflowing)

declare Pad.simps [simp del]

section \<open>Notions used in the statements\<close>

text \<open>All seven parallel arrays of an Encoding have length \<open>n\<close>.\<close>

definition all_lengths :: "Encoding \<Rightarrow> nat \<Rightarrow> bool" where
  "all_lengths e n \<longleftrightarrow>
     length (Ids e) = n \<and> length (TypeIds e) = n \<and> length (Tokens e) = n \<and>
     length (Offsets e) = n \<and> length (SpecialTokenMask e) = n \<and>
     length (AttentionMask e) = n \<and> length (Words e) = n"

definition ov_lengths :: "overflow \<Rightarrow> nat \<Rightarrow> bool" where
  "ov_lengths ov n \<longleftrightarrow>
     length (oIds ov) = n \<and> length (oTypeIds ov) = n \<and> length (oTokens ov) = n \<and>
     length (oOffsets ov) = n \<and> length (oSpeToks ov) = n \<and>
     length (oAttent ov) = n \<and> length (oWords ov) = n"

text \<open>The last \<open>n\<close> elements of a list.\<close>

definition lastn :: "nat \<Rightarrow> 'a list \<Rightarrow> 'a list" where
  "lastn n s = drop (length s - n) s"

text \<open>
  Window \<open>k\<close> of one array: the last \<open>stride\<close> elements of the previous window, then up
  to \<open>partSize\<close> elements of the material past \<open>maxLen\<close>, from offset \<open>k * partSize\<close>.
\<close>

definition window_of :: "nat \<Rightarrow> nat \<Rightarrow> nat \<Rightarrow> 'a list \<Rightarrow> 'a list \<Rightarrow> 'a list" where
  "window_of stride partSize k previous material =
     lastn stride previous @ take partSize (drop (k * partSize) material)"

text \<open>
  \<open>w\<close> is window \<open>k\<close> of the truncation of \<open>e\<close>: in each of the seven arrays, the last
  \<open>stride\<close> elements of \<open>previous\<close>, then up to \<open>maxLen - stride\<close> elements of what
  \<open>e\<close> holds past \<open>maxLen\<close>, from offset \<open>k * (maxLen - stride)\<close>; and no overflow of
  its own.
\<close>

definition is_window :: "nat \<Rightarrow> nat \<Rightarrow> nat \<Rightarrow> Encoding \<Rightarrow> Encoding \<Rightarrow> Encoding \<Rightarrow> bool" where
  "is_window maxLen stride k e previous w \<longleftrightarrow>
     Ids w = window_of stride (maxLen - stride) k (Ids previous) (drop maxLen (Ids e)) \<and>
     TypeIds w = window_of stride (maxLen - stride) k (TypeIds previous) (drop maxLen (TypeIds e)) \<and>
     Tokens w = window_of stride (maxLen - stride) k (Tokens previous) (drop maxLen (Tokens e)) \<and>
     Offsets w = window_of stride (maxLen - stride) k (Offsets previous) (drop maxLen (Offsets e)) \<and>
     SpecialTokenMask w =
       window_of stride (maxLen - stride) k (SpecialTokenMask previous)
         (drop maxLen (SpecialTokenMask e)) \<and>
     AttentionMask w =
       window_of stride (maxLen - stride) k (AttentionMask previous)
         (drop maxLen (AttentionMask e)) \<and>
     Words w = window_of stride (maxLen - stride) k (Words previous) (drop maxLen (Words e)) \<and>
     Overflowing w = []"

subsection \<open>Example Encodings\<close>

definition one_token :: Encoding where
  "one_token = Encoding [7] [0] [''a''] [\<lparr>Start = 0, End = 1\<rparr>] [0] [1] [] [0]"

definition with_overflow :: Encoding where
  "with_overflow =
     Encoding [7] [0] [''a''] [\<lparr>Start = 0, End = 1\<rparr>] [0] [1] [one_token] [0]"

definition same_word :: Encoding where
  "same_word =
     Encoding [7, 8] [0, 0] [''a'', ''b''] [\<lparr>Start = 0, End = 1\<rparr>, \<lparr>Start = 1, End = 2\<rparr>]
       [0, 0] [1, 1] [] [0, 0]"

definition wide_token :: Encoding where
  "wide_token = Encoding [9] [0] [''c''] [\<lparr>Start = 0, End = 2\<rparr>] [0] [1] [] [0]"

definition ten_tokens :: Encoding where
  "ten_tokens =
     Encoding [0, 1, 2, 3, 4, 5, 6, 7, 8, 9] (replicate 10 0) (replicate 10 ''t'')
       (replicate 10 \<lparr>Start = 0, End = 0\<rparr>) (replicate 10 0) (replicate 10 1) []
       [0, 1, 2, 3, 4, 5, 6, 7, 8, 9]"

section \<open>The fill loop\<close>

lemma fill_ok:
  "i \<le> n \<Longrightarrow> n \<le> length s \<Longrightarrow> fill i n v s = Inr (take i s @ replicate (n - i) v @ drop n s)"
proof (induction i n v s rule: fill.induct)
  case (1 i n v s)
  show ?case
  proof (cases "i < n")
    case True
    then have il: "i < length s" using 1 by simp
    have "fill i n v s = fill (i + 1) n v (s[i := v])"
      using True il by (subst fill.simps) simp
    also have "\<dots> = Inr (take (i + 1) (s[i := v]) @ replicate (n - (i + 1)) v @ drop n (s[i := v]))"
      using 1 True il by simp
    also have "take (i + 1) (s[i := v]) = take i s @ [v]"
      using il by (simp add: take_Suc_conv_app_nth)
    also have "drop n (s[i := v]) = drop n s"
      using True by simp
    also have "(take i s @ [v]) @ replicate (n - (i + 1)) v @ drop n s =
                 take i s @ replicate (n - i) v @ drop n s"
      using True by (simp add: replicate_app_Cons_same Suc_diff_Suc flip: replicate_Suc)
    finally show ?thesis .
  next
    case False
    then show ?thesis using 1 by (subst fill.simps) simp
  qed
qed

lemma fill_panics: "i \<le> length s \<Longrightarrow> length s < n \<Longrightarrow> fill i n v s = Inl IndexOutOfRange"
proof (induction i n v s rule: fill.induct)
  case (1 i n v s)
  show ?case
  proof (cases "i < length s")
    case True
    then show ?thesis using 1 by (subst fill.simps) simp
  next
    case False
    then show ?thesis using 1 by (subst fill.simps) simp
  qed
qed

section \<open>TakeOverflowing and Token2Chars on the examples\<close>

text \<open>
  C9. TakeOverflowing returns the overflow list, but the caller's Encoding is as it was:
  its \<open>Overflowing\<close> is not reset. The source's comment ("reset it to empty at
  encoding") and the claim ask for the reset; the value receiver loses it.
\<close>

theorem TakeOverflowing_receiver_unchanged:
  "call_by_value TakeOverflowing e = (Overflowing e, e) \<and>
   Overflowing (snd (call_by_value TakeOverflowing with_overflow)) = [one_token]"
  by (simp add: call_by_value_def TakeOverflowing_def with_overflow_def)

text \<open>
  C8. At \<open>tokenIdx = len(e.Offsets)\<close> the guard \<^verbatim>\<open>tokenIdx > len(e.Offsets)\<close> lets the
  index through and the index expression panics: for the one-token Encoding,
  \<open>Token2Chars 1\<close> is neither an offset nor "not found".
\<close>

theorem Token2Chars_at_length_panics:
  "Token2Chars one_token 1 = Inl IndexOutOfRange"
  by (simp add: Token2Chars_def one_token_def word_sless_alt)

section \<open>Pad on the examples\<close>

lemma int_of_uint_small: "n < 2 ^ 63 \<Longrightarrow> int_of_uint n = int n"
  by (simp add: int_of_uint_def)

lemma Right_not_Left: "Right \<noteq> Left"
  by (simp add: Left_def Right_def)

lemma pad_right_one_token:
  "pad_right 2 one_token 0 0 ''[PAD]'' =
     Encoding [7, 0, 0] [0, 0, 0] [''a'', ''[PAD]'', ''[PAD]'']
       [\<lparr>Start = 0, End = 1\<rparr>, \<lparr>Start = 0, End = 0\<rparr>, \<lparr>Start = 0, End = 0\<rparr>]
       [0, 1, 1] [1, 0, 0] [] [0, 0, 0]"
  by (simp add: one_token_def numeral_2_eq_2)

lemma pad_right_with_overflow:
  "pad_right 2 with_overflow 0 0 ''[PAD]'' =
     Encoding [7, 0, 0] [0, 0, 0] [''a'', ''[PAD]'', ''[PAD]'']
       [\<lparr>Start = 0, End = 1\<rparr>, \<lparr>Start = 0, End = 0\<rparr>, \<lparr>Start = 0, End = 0\<rparr>]
       [0, 1, 1] [1, 0, 0] [one_token] [0, 0, 0]"
  by (simp add: with_overflow_def numeral_2_eq_2)

lemma Pad_one_token_Right3:
  "Pad one_token 3 0 0 ''[PAD]'' Right = Inr (pad_right 2 one_token 0 0 ''[PAD]'')"
proof -
  have o: "Overflowing one_token = []" "Ids one_token = [7]"
    by (simp_all add: one_token_def)
  show ?thesis
    by (subst Pad.simps) (simp add: o int_of_uint_small Right_not_Left)
qed

lemma pad_left_zero:
  "pad_left zeroEncoding 2 9 5 ''[PAD]'' =
     Inr (Encoding [9, 9] [5, 5, 9, 9] [''[PAD]'', ''[PAD]'']
            [\<lparr>Start = 0, End = 0\<rparr>, \<lparr>Start = 0, End = 0\<rparr>] [1, 1] [0, 0] [] [0, 0])"
  by (simp add: pad_left_def zeroEncoding_def fill_ok and_then_def set_Ids_def set_TypeIds_def
      set_Tokens_def set_SpecialTokenMask_def set_AttentionMask_def set_Offsets_def
      set_Words_def numeral_2_eq_2)

lemma pad_left_one_token:
  "pad_left one_token 2 0 0 ''[PAD]'' = Inl IndexOutOfRange"
  by (simp add: pad_left_def one_token_def fill_ok fill_panics and_then_def set_Ids_def)

text \<open>
  C2. With a target length that the Encoding already has, Pad takes the bare
  \<^verbatim>\<open>return\<close> and hands back the zero value of the struct, not the Encoding.
\<close>

theorem Pad_short_target_returns_zero:
  "Pad one_token 1 0 0 ''[PAD]'' Right = Inr zeroEncoding \<and> zeroEncoding \<noteq> one_token"
proof -
  have o: "Overflowing one_token = []" "Ids one_token = [7]"
    by (simp_all add: one_token_def)
  have "Pad one_token 1 0 0 ''[PAD]'' Right = Inr zeroEncoding"
    by (subst Pad.simps) (simp add: o int_of_uint_small)
  moreover have "zeroEncoding \<noteq> one_token"
    by (simp add: zeroEncoding_def one_token_def)
  ultimately show ?thesis by simp
qed

text \<open>
  C4. Padding an Encoding of one token, with one overflow entry of one token, to length
  3: the primary arrays grow to 3, the overflow entry comes back as it was.
\<close>

theorem Pad_leaves_overflowing:
  "Pad with_overflow 3 0 0 ''[PAD]'' Right =
     Inr (Encoding [7, 0, 0] [0, 0, 0] [''a'', ''[PAD]'', ''[PAD]'']
            [\<lparr>Start = 0, End = 1\<rparr>, \<lparr>Start = 0, End = 0\<rparr>, \<lparr>Start = 0, End = 0\<rparr>]
            [0, 1, 1] [1, 0, 0] [one_token] [0, 0, 0])"
proof -
  have o: "Overflowing with_overflow = [one_token]" "Ids with_overflow = [7]"
    by (simp_all add: with_overflow_def)
  have "Pad with_overflow 3 0 0 ''[PAD]'' Right = Inr (pad_right 2 with_overflow 0 0 ''[PAD]'')"
    by (subst Pad.simps) (simp add: o Pad_one_token_Right3 int_of_uint_small Right_not_Left)
  then show ?thesis
    by (simp only: pad_right_with_overflow)
qed

text \<open>
  C1. The length invariant is lost by Pad to the left. Padding the empty Encoding to
  length 2 returns type ids of length 4 next to ids of length 2 (the new type ids are
  followed by the ids already padded); padding a non-empty Encoding panics in the loop
  over the new offsets, whose bound is the padded length.
\<close>

theorem Pad_Left_breaks_lengths:
  "Pad zeroEncoding 2 9 5 ''[PAD]'' Left =
     Inr (Encoding [9, 9] [5, 5, 9, 9] [''[PAD]'', ''[PAD]'']
            [\<lparr>Start = 0, End = 0\<rparr>, \<lparr>Start = 0, End = 0\<rparr>] [1, 1] [0, 0] [] [0, 0]) \<and>
   Pad one_token 3 0 0 ''[PAD]'' Left = Inl IndexOutOfRange"
proof
  have z: "Overflowing zeroEncoding = []" "Ids zeroEncoding = []"
    by (simp_all add: zeroEncoding_def)
  show "Pad zeroEncoding 2 9 5 ''[PAD]'' Left =
     Inr (Encoding [9, 9] [5, 5, 9, 9] [''[PAD]'', ''[PAD]'']
            [\<lparr>Start = 0, End = 0\<rparr>, \<lparr>Start = 0, End = 0\<rparr>] [1, 1] [0, 0] [] [0, 0])"
    by (subst Pad.simps) (simp add: z int_of_uint_small pad_left_zero)
  have o: "Overflowing one_token = []" "Ids one_token = [7]"
    by (simp_all add: one_token_def)
  show "Pad one_token 3 0 0 ''[PAD]'' Left = Inl IndexOutOfRange"
    by (subst Pad.simps) (simp add: o int_of_uint_small pad_left_one_token)
qed

section \<open>MergeWith on the examples\<close>

text \<open>MergeWith unfolded for the shapes of overflow list met below.\<close>

lemma MergeWith_leaf:
  "sOverflowing e = [] \<Longrightarrow> sOverflowing pair = [] \<Longrightarrow>
   MergeWith grow e pair h = merge_fields grow e pair [] h"
  by (subst MergeWith.simps) simp

lemma MergeWith_pair_overflow1:
  "sOverflowing e = [] \<Longrightarrow> sOverflowing pair = [p] \<Longrightarrow>
   MergeWith grow e pair h = merge_fields grow e pair [e] (snd (MergeWith grow e p h))"
  by (subst MergeWith.simps) simp

lemma MergeWith_own_overflow1:
  "sOverflowing e = [c] \<Longrightarrow> sOverflowing pair = [] \<Longrightarrow>
   MergeWith grow e pair h = merge_fields grow e pair [c] (snd (MergeWith grow c pair h))"
  by (subst MergeWith.simps) simp

lemma replicate_numeral_Cons: "replicate (numeral k) x = x # replicate (pred_numeral k) x"
  by (simp add: numeral_eq_Suc)

lemmas eval_defs = replicate_numeral_Cons merge_fields_def append_many_def append_each_def
  append1_def elems_def array_at_def cell_def write_at_def grow_double_def startingOffset_def
  adjustedO_def alloc_def empty_heap_def upt_conv_Cons

text \<open>
  C5. Let \<open>current\<close> be what \<^verbatim>\<open>one_token.Merge([same_word, with_overflow])\<close> returns and
  \<open>other\<close> an Encoding of one token with the offsets \<open>(0, 2)\<close>, all built from literals.
  The offsets of \<open>current\<close> are \<open>(0, 1), (1, 2), (2, 3), (3, 4)\<close>, so the largest \<^verbatim>\<open>End\<close> is
  4, and \<^verbatim>\<open>current.MergeWith(other)\<close> should return them followed by \<open>(4, 6)\<close>. It
  returns \<open>(0, 1), (1, 2), (2, 3), (3, 5), (5, 7)\<close>. The entry of \<^verbatim>\<open>current.Overflowing\<close>,
  left there by the second merge, shares the offsets array of \<open>current\<close> with length 3 and
  capacity 4; step 1.1, \<^verbatim>\<open>currO.MergeWith(pair)\<close>, whose result is dropped, appends the offset
  of \<open>other\<close> rebased by 3 to it, into the fourth cell of that array: the last offset of
  \<open>current\<close> is overwritten before step 3 reads the offsets of \<open>current\<close>.
\<close>

theorem MergeWith_overwrites_offsets:
  "(let (a, h1) = fresh one_token empty_heap;
        (b, h2) = fresh same_word h1;
        (c, h3) = fresh with_overflow h2;
        (current, h4) = Merge grow_double a [b, c] h3;
        (other, h5) = fresh wide_token h4;
        (r, h6) = MergeWith grow_double current other h5
    in (Offsets (contents h5 current), Offsets (contents h5 other), Offsets (contents h6 r))) =
   ([\<lparr>Start = 0, End = 1\<rparr>, \<lparr>Start = 1, End = 2\<rparr>, \<lparr>Start = 2, End = 3\<rparr>,
     \<lparr>Start = 3, End = 4\<rparr>],
    [\<lparr>Start = 0, End = 2\<rparr>],
    [\<lparr>Start = 0, End = 1\<rparr>, \<lparr>Start = 1, End = 2\<rparr>, \<lparr>Start = 2, End = 3\<rparr>,
     \<lparr>Start = 3, End = 5\<rparr>, \<lparr>Start = 5, End = 7\<rparr>])"
proof -
  let ?a = "Enc \<lparr>s_arr = 0, s_off = 0, s_len = 1, s_cap = 1\<rparr> \<lparr>s_arr =
             1, s_off = 0, s_len = 1, s_cap = 1\<rparr> \<lparr>s_arr = 0, s_off = 0, s_len
             = 1, s_cap = 1\<rparr> \<lparr>s_arr = 0, s_off = 0, s_len = 1, s_cap =
             1\<rparr> \<lparr>s_arr = 2, s_off = 0, s_len = 1, s_cap = 1\<rparr>
             \<lparr>s_arr = 3, s_off = 0, s_len = 1, s_cap = 1\<rparr> [] \<lparr>s_arr =
             4, s_off = 0, s_len = 1, s_cap = 1\<rparr>"
  let ?h1 = "\<lparr>mem_u32 = [[7], [0], [0], [1], [0]], mem_str = [[''a'']], mem_off =
             [[\<lparr>Start = 0, End = 1\<rparr>]]\<rparr>"
  let ?b = "Enc \<lparr>s_arr = 5, s_off = 0, s_len = 2, s_cap = 2\<rparr> \<lparr>s_arr =
             6, s_off = 0, s_len = 2, s_cap = 2\<rparr> \<lparr>s_arr = 1, s_off = 0, s_len
             = 2, s_cap = 2\<rparr> \<lparr>s_arr = 1, s_off = 0, s_len = 2, s_cap =
             2\<rparr> \<lparr>s_arr = 7, s_off = 0, s_len = 2, s_cap = 2\<rparr>
             \<lparr>s_arr = 8, s_off = 0, s_len = 2, s_cap = 2\<rparr> [] \<lparr>s_arr =
             9, s_off = 0, s_len = 2, s_cap = 2\<rparr>"
  let ?h2 = "\<lparr>mem_u32 = [[7], [0], [0], [1], [0], [7, 8], [0, 0], [0, 0], [1, 1], [0,
             0]], mem_str = [[''a''], [''a'', ''b'']], mem_off = [[\<lparr>Start = 0, End =
             1\<rparr>], [\<lparr>Start = 0, End = 1\<rparr>, \<lparr>Start = 1, End =
             2\<rparr>]]\<rparr>"
  let ?c = "Enc \<lparr>s_arr = 10, s_off = 0, s_len = 1, s_cap = 1\<rparr> \<lparr>s_arr =
             11, s_off = 0, s_len = 1, s_cap = 1\<rparr> \<lparr>s_arr = 2, s_off = 0, s_len
             = 1, s_cap = 1\<rparr> \<lparr>s_arr = 2, s_off = 0, s_len = 1, s_cap =
             1\<rparr> \<lparr>s_arr = 12, s_off = 0, s_len = 1, s_cap = 1\<rparr>
             \<lparr>s_arr = 13, s_off = 0, s_len = 1, s_cap = 1\<rparr> [Enc \<lparr>s_arr
             = 15, s_off = 0, s_len = 1, s_cap = 1\<rparr> \<lparr>s_arr = 16, s_off = 0,
             s_len = 1, s_cap = 1\<rparr> \<lparr>s_arr = 3, s_off = 0, s_len = 1, s_cap =
             1\<rparr> \<lparr>s_arr = 3, s_off = 0, s_len = 1, s_cap = 1\<rparr>
             \<lparr>s_arr = 17, s_off = 0, s_len = 1, s_cap = 1\<rparr> \<lparr>s_arr = 18,
             s_off = 0, s_len = 1, s_cap = 1\<rparr> [] \<lparr>s_arr = 19, s_off = 0, s_len
             = 1, s_cap = 1\<rparr>] \<lparr>s_arr = 14, s_off = 0, s_len = 1, s_cap =
             1\<rparr>"
  let ?h3 = "\<lparr>mem_u32 = [[7], [0], [0], [1], [0], [7, 8], [0, 0], [0, 0], [1, 1], [0,
             0], [7], [0], [0], [1], [0], [7], [0], [0], [1], [0]], mem_str = [[''a''], [''a'',
             ''b''], [''a''], [''a'']], mem_off = [[\<lparr>Start = 0, End = 1\<rparr>],
             [\<lparr>Start = 0, End = 1\<rparr>, \<lparr>Start = 1, End = 2\<rparr>],
             [\<lparr>Start = 0, End = 1\<rparr>], [\<lparr>Start = 0, End =
             1\<rparr>]]\<rparr>"
  let ?m1 = "Enc \<lparr>s_arr = 20, s_off = 0, s_len = 3, s_cap = 3\<rparr> \<lparr>s_arr =
             21, s_off = 0, s_len = 3, s_cap = 3\<rparr> \<lparr>s_arr = 4, s_off = 0, s_len
             = 3, s_cap = 3\<rparr> \<lparr>s_arr = 5, s_off = 0, s_len = 3, s_cap =
             4\<rparr> \<lparr>s_arr = 22, s_off = 0, s_len = 3, s_cap = 3\<rparr>
             \<lparr>s_arr = 23, s_off = 0, s_len = 3, s_cap = 3\<rparr> [] \<lparr>s_arr =
             25, s_off = 0, s_len = 3, s_cap = 4\<rparr>"
  let ?h4 = "\<lparr>mem_u32 = [[7], [0], [0], [1], [0], [7, 8], [0, 0], [0, 0], [1, 1], [0,
             0], [7], [0], [0], [1], [0], [7], [0], [0], [1], [0], [7, 7, 8], [0, 0, 0], [0,
             0, 0], [1, 1, 1], [0, 1], [0, 1, 1, 0]], mem_str = [[''a''], [''a'', ''b''],
             [''a''], [''a''], [''a'', ''a'', ''b'']], mem_off = [[\<lparr>Start = 0, End =
             1\<rparr>], [\<lparr>Start = 0, End = 1\<rparr>, \<lparr>Start = 1, End =
             2\<rparr>], [\<lparr>Start = 0, End = 1\<rparr>], [\<lparr>Start = 0, End =
             1\<rparr>], [\<lparr>Start = 0, End = 1\<rparr>, \<lparr>Start = 1, End =
             2\<rparr>], [\<lparr>Start = 0, End = 1\<rparr>, \<lparr>Start = 1, End =
             2\<rparr>, \<lparr>Start = 2, End = 3\<rparr>, \<lparr>Start = 0, End =
             0\<rparr>]]\<rparr>"
  let ?d1 = "Enc \<lparr>s_arr = 26, s_off = 0, s_len = 4, s_cap = 6\<rparr> \<lparr>s_arr =
             27, s_off = 0, s_len = 4, s_cap = 6\<rparr> \<lparr>s_arr = 5, s_off = 0, s_len
             = 4, s_cap = 6\<rparr> \<lparr>s_arr = 5, s_off = 0, s_len = 4, s_cap =
             4\<rparr> \<lparr>s_arr = 28, s_off = 0, s_len = 4, s_cap = 6\<rparr>
             \<lparr>s_arr = 29, s_off = 0, s_len = 4, s_cap = 6\<rparr> [] \<lparr>s_arr =
             25, s_off = 0, s_len = 4, s_cap = 4\<rparr>"
  let ?h5 = "\<lparr>mem_u32 = [[7], [0], [0], [1], [0], [7, 8], [0, 0], [0, 0], [1, 1], [0,
             0], [7], [0], [0], [1], [0], [7], [0], [0], [1], [0], [7, 7, 8], [0, 0, 0], [0,
             0, 0], [1, 1, 1], [0, 1], [0, 1, 1, 3], [7, 7, 8, 7, 0, 0], [0, 0, 0, 0, 0, 0],
             [0, 0, 0, 0, 0, 0], [1, 1, 1, 1, 0, 0]], mem_str = [[''a''], [''a'', ''b''],
             [''a''], [''a''], [''a'', ''a'', ''b''], [''a'', ''a'', ''b'', ''a'', [], []]],
             mem_off = [[\<lparr>Start = 0, End = 1\<rparr>], [\<lparr>Start = 0, End =
             1\<rparr>, \<lparr>Start = 1, End = 2\<rparr>], [\<lparr>Start = 0, End =
             1\<rparr>], [\<lparr>Start = 0, End = 1\<rparr>], [\<lparr>Start = 0, End =
             1\<rparr>, \<lparr>Start = 1, End = 2\<rparr>], [\<lparr>Start = 0, End =
             1\<rparr>, \<lparr>Start = 1, End = 2\<rparr>, \<lparr>Start = 2, End =
             3\<rparr>, \<lparr>Start = 3, End = 4\<rparr>]]\<rparr>"
  let ?m2 = "Enc \<lparr>s_arr = 30, s_off = 0, s_len = 4, s_cap = 6\<rparr> \<lparr>s_arr =
             31, s_off = 0, s_len = 4, s_cap = 6\<rparr> \<lparr>s_arr = 6, s_off = 0, s_len
             = 4, s_cap = 6\<rparr> \<lparr>s_arr = 5, s_off = 0, s_len = 4, s_cap =
             4\<rparr> \<lparr>s_arr = 32, s_off = 0, s_len = 4, s_cap = 6\<rparr>
             \<lparr>s_arr = 33, s_off = 0, s_len = 4, s_cap = 6\<rparr> [Enc \<lparr>s_arr
             = 20, s_off = 0, s_len = 3, s_cap = 3\<rparr> \<lparr>s_arr = 21, s_off = 0,
             s_len = 3, s_cap = 3\<rparr> \<lparr>s_arr = 4, s_off = 0, s_len = 3, s_cap =
             3\<rparr> \<lparr>s_arr = 5, s_off = 0, s_len = 3, s_cap = 4\<rparr>
             \<lparr>s_arr = 22, s_off = 0, s_len = 3, s_cap = 3\<rparr> \<lparr>s_arr = 23,
             s_off = 0, s_len = 3, s_cap = 3\<rparr> [] \<lparr>s_arr = 25, s_off = 0, s_len
             = 3, s_cap = 4\<rparr>] \<lparr>s_arr = 25, s_off = 0, s_len = 4, s_cap =
             4\<rparr>"
  let ?h6 = "\<lparr>mem_u32 = [[7], [0], [0], [1], [0], [7, 8], [0, 0], [0, 0], [1, 1], [0,
             0], [7], [0], [0], [1], [0], [7], [0], [0], [1], [0], [7, 7, 8], [0, 0, 0], [0,
             0, 0], [1, 1, 1], [0, 1], [0, 1, 1, 3], [7, 7, 8, 7, 0, 0], [0, 0, 0, 0, 0, 0],
             [0, 0, 0, 0, 0, 0], [1, 1, 1, 1, 0, 0], [7, 7, 8, 7, 0, 0], [0, 0, 0, 0, 0, 0],
             [0, 0, 0, 0, 0, 0], [1, 1, 1, 1, 0, 0]], mem_str = [[''a''], [''a'', ''b''],
             [''a''], [''a''], [''a'', ''a'', ''b''], [''a'', ''a'', ''b'', ''a'', [], []],
             [''a'', ''a'', ''b'', ''a'', [], []]], mem_off = [[\<lparr>Start = 0, End =
             1\<rparr>], [\<lparr>Start = 0, End = 1\<rparr>, \<lparr>Start = 1, End =
             2\<rparr>], [\<lparr>Start = 0, End = 1\<rparr>], [\<lparr>Start = 0, End =
             1\<rparr>], [\<lparr>Start = 0, End = 1\<rparr>, \<lparr>Start = 1, End =
             2\<rparr>], [\<lparr>Start = 0, End = 1\<rparr>, \<lparr>Start = 1, End =
             2\<rparr>, \<lparr>Start = 2, End = 3\<rparr>, \<lparr>Start = 3, End =
             4\<rparr>]]\<rparr>"
  let ?z = "Enc \<lparr>s_arr = 34, s_off = 0, s_len = 1, s_cap = 1\<rparr> \<lparr>s_arr =
             35, s_off = 0, s_len = 1, s_cap = 1\<rparr> \<lparr>s_arr = 7, s_off = 0, s_len
             = 1, s_cap = 1\<rparr> \<lparr>s_arr = 6, s_off = 0, s_len = 1, s_cap =
             1\<rparr> \<lparr>s_arr = 36, s_off = 0, s_len = 1, s_cap = 1\<rparr>
             \<lparr>s_arr = 37, s_off = 0, s_len = 1, s_cap = 1\<rparr> [] \<lparr>s_arr =
             38, s_off = 0, s_len = 1, s_cap = 1\<rparr>"
  let ?h7 = "\<lparr>mem_u32 = [[7], [0], [0], [1], [0], [7, 8], [0, 0], [0, 0], [1, 1], [0,
             0], [7], [0], [0], [1], [0], [7], [0], [0], [1], [0], [7, 7, 8], [0, 0, 0], [0,
             0, 0], [1, 1, 1], [0, 1], [0, 1, 1, 3], [7, 7, 8, 7, 0, 0], [0, 0, 0, 0, 0, 0],
             [0, 0, 0, 0, 0, 0], [1, 1, 1, 1, 0, 0], [7, 7, 8, 7, 0, 0], [0, 0, 0, 0, 0, 0],
             [0, 0, 0, 0, 0, 0], [1, 1, 1, 1, 0, 0], [9], [0], [0], [1], [0]], mem_str =
             [[''a''], [''a'', ''b''], [''a''], [''a''], [''a'', ''a'', ''b''], [''a'',
             ''a'', ''b'', ''a'', [], []], [''a'', ''a'', ''b'', ''a'', [], []], [''c'']],
             mem_off = [[\<lparr>Start = 0, End = 1\<rparr>], [\<lparr>Start = 0, End =
             1\<rparr>, \<lparr>Start = 1, End = 2\<rparr>], [\<lparr>Start = 0, End =
             1\<rparr>], [\<lparr>Start = 0, End = 1\<rparr>], [\<lparr>Start = 0, End =
             1\<rparr>, \<lparr>Start = 1, End = 2\<rparr>], [\<lparr>Start = 0, End =
             1\<rparr>, \<lparr>Start = 1, End = 2\<rparr>, \<lparr>Start = 2, End =
             3\<rparr>, \<lparr>Start = 3, End = 4\<rparr>], [\<lparr>Start = 0, End =
             2\<rparr>]]\<rparr>"
  let ?d2 = "Enc \<lparr>s_arr = 39, s_off = 0, s_len = 4, s_cap = 6\<rparr> \<lparr>s_arr =
             40, s_off = 0, s_len = 4, s_cap = 6\<rparr> \<lparr>s_arr = 8, s_off = 0, s_len
             = 4, s_cap = 6\<rparr> \<lparr>s_arr = 5, s_off = 0, s_len = 4, s_cap =
             4\<rparr> \<lparr>s_arr = 41, s_off = 0, s_len = 4, s_cap = 6\<rparr>
             \<lparr>s_arr = 42, s_off = 0, s_len = 4, s_cap = 6\<rparr> [] \<lparr>s_arr =
             25, s_off = 0, s_len = 4, s_cap = 4\<rparr>"
  let ?h8 = "\<lparr>mem_u32 = [[7], [0], [0], [1], [0], [7, 8], [0, 0], [0, 0], [1, 1], [0,
             0], [7], [0], [0], [1], [0], [7], [0], [0], [1], [0], [7, 7, 8], [0, 0, 0], [0,
             0, 0], [1, 1, 1], [0, 1], [0, 1, 1, 3], [7, 7, 8, 7, 0, 0], [0, 0, 0, 0, 0, 0],
             [0, 0, 0, 0, 0, 0], [1, 1, 1, 1, 0, 0], [7, 7, 8, 7, 0, 0], [0, 0, 0, 0, 0, 0],
             [0, 0, 0, 0, 0, 0], [1, 1, 1, 1, 0, 0], [9], [0], [0], [1], [0], [7, 7, 8, 9,
             0, 0], [0, 0, 0, 0, 0, 0], [0, 0, 0, 0, 0, 0], [1, 1, 1, 1, 0, 0]], mem_str =
             [[''a''], [''a'', ''b''], [''a''], [''a''], [''a'', ''a'', ''b''], [''a'',
             ''a'', ''b'', ''a'', [], []], [''a'', ''a'', ''b'', ''a'', [], []], [''c''],
             [''a'', ''a'', ''b'', ''c'', [], []]], mem_off = [[\<lparr>Start = 0, End =
             1\<rparr>], [\<lparr>Start = 0, End = 1\<rparr>, \<lparr>Start = 1, End =
             2\<rparr>], [\<lparr>Start = 0, End = 1\<rparr>], [\<lparr>Start = 0, End =
             1\<rparr>], [\<lparr>Start = 0, End = 1\<rparr>, \<lparr>Start = 1, End =
             2\<rparr>], [\<lparr>Start = 0, End = 1\<rparr>, \<lparr>Start = 1, End =
             2\<rparr>, \<lparr>Start = 2, End = 3\<rparr>, \<lparr>Start = 3, End =
             5\<rparr>], [\<lparr>Start = 0, End = 2\<rparr>]]\<rparr>"
  let ?r = "Enc \<lparr>s_arr = 30, s_off = 0, s_len = 5, s_cap = 6\<rparr> \<lparr>s_arr =
             31, s_off = 0, s_len = 5, s_cap = 6\<rparr> \<lparr>s_arr = 6, s_off = 0, s_len
             = 5, s_cap = 6\<rparr> \<lparr>s_arr = 7, s_off = 0, s_len = 5, s_cap =
             8\<rparr> \<lparr>s_arr = 32, s_off = 0, s_len = 5, s_cap = 6\<rparr>
             \<lparr>s_arr = 33, s_off = 0, s_len = 5, s_cap = 6\<rparr> [Enc \<lparr>s_arr
             = 20, s_off = 0, s_len = 3, s_cap = 3\<rparr> \<lparr>s_arr = 21, s_off = 0,
             s_len = 3, s_cap = 3\<rparr> \<lparr>s_arr = 4, s_off = 0, s_len = 3, s_cap =
             3\<rparr> \<lparr>s_arr = 5, s_off = 0, s_len = 3, s_cap = 4\<rparr>
             \<lparr>s_arr = 22, s_off = 0, s_len = 3, s_cap = 3\<rparr> \<lparr>s_arr = 23,
             s_off = 0, s_len = 3, s_cap = 3\<rparr> [] \<lparr>s_arr = 25, s_off = 0, s_len
             = 3, s_cap = 4\<rparr>] \<lparr>s_arr = 43, s_off = 0, s_len = 5, s_cap =
             8\<rparr>"
  let ?h9 = "\<lparr>mem_u32 = [[7], [0], [0], [1], [0], [7, 8], [0, 0], [0, 0], [1, 1], [0,
             0], [7], [0], [0], [1], [0], [7], [0], [0], [1], [0], [7, 7, 8], [0, 0, 0], [0,
             0, 0], [1, 1, 1], [0, 1], [0, 1, 1, 3], [7, 7, 8, 7, 0, 0], [0, 0, 0, 0, 0, 0],
             [0, 0, 0, 0, 0, 0], [1, 1, 1, 1, 0, 0], [7, 7, 8, 7, 9, 0], [0, 0, 0, 0, 0, 0],
             [0, 0, 0, 0, 0, 0], [1, 1, 1, 1, 1, 0], [9], [0], [0], [1], [0], [7, 7, 8, 9,
             0, 0], [0, 0, 0, 0, 0, 0], [0, 0, 0, 0, 0, 0], [1, 1, 1, 1, 0, 0], [0, 1, 1, 3,
             4, 0, 0, 0]], mem_str = [[''a''], [''a'', ''b''], [''a''], [''a''], [''a'', ''a'',
             ''b''], [''a'', ''a'', ''b'', ''a'', [], []], [''a'', ''a'', ''b'', ''a'',
             ''c'', []], [''c''], [''a'', ''a'', ''b'', ''c'', [], []]], mem_off =
             [[\<lparr>Start = 0, End = 1\<rparr>], [\<lparr>Start = 0, End = 1\<rparr>,
             \<lparr>Start = 1, End = 2\<rparr>], [\<lparr>Start = 0, End = 1\<rparr>],
             [\<lparr>Start = 0, End = 1\<rparr>], [\<lparr>Start = 0, End = 1\<rparr>,
             \<lparr>Start = 1, End = 2\<rparr>], [\<lparr>Start = 0, End = 1\<rparr>,
             \<lparr>Start = 1, End = 2\<rparr>, \<lparr>Start = 2, End = 3\<rparr>,
             \<lparr>Start = 3, End = 5\<rparr>], [\<lparr>Start = 0, End = 2\<rparr>],
             [\<lparr>Start = 0, End = 1\<rparr>, \<lparr>Start = 1, End = 2\<rparr>,
             \<lparr>Start = 2, End = 3\<rparr>, \<lparr>Start = 3, End = 5\<rparr>,
             \<lparr>Start = 5, End = 7\<rparr>, \<lparr>Start = 0, End = 0\<rparr>,
             \<lparr>Start = 0, End = 0\<rparr>, \<lparr>Start = 0, End =
             0\<rparr>]]\<rparr>"
  let ?ov = "Enc \<lparr>s_arr = 15, s_off = 0, s_len = 1, s_cap = 1\<rparr> \<lparr>s_arr =
             16, s_off = 0, s_len = 1, s_cap = 1\<rparr> \<lparr>s_arr = 3, s_off = 0, s_len
             = 1, s_cap = 1\<rparr> \<lparr>s_arr = 3, s_off = 0, s_len = 1, s_cap =
             1\<rparr> \<lparr>s_arr = 17, s_off = 0, s_len = 1, s_cap = 1\<rparr>
             \<lparr>s_arr = 18, s_off = 0, s_len = 1, s_cap = 1\<rparr> [] \<lparr>s_arr =
             19, s_off = 0, s_len = 1, s_cap = 1\<rparr>"
  have 1: "fresh one_token empty_heap = (?a, ?h1)"
    by (simp add: one_token_def alloc_def empty_heap_def)
  have 2: "fresh same_word ?h1 = (?b, ?h2)"
    by (simp add: same_word_def alloc_def)
  have 3: "fresh with_overflow ?h2 = (?c, ?h3)"
    by (simp add: with_overflow_def one_token_def alloc_def)
  have 4: "MergeWith grow_double ?a ?b ?h3 = (?m1, ?h4)"
    by (simp add: MergeWith_leaf eval_defs word_sless_alt Let_def)
  have 5: "MergeWith grow_double ?m1 ?ov ?h4 = (?d1, ?h5)"
    by (simp add: MergeWith_leaf eval_defs word_sless_alt Let_def)
  have "MergeWith grow_double ?m1 ?c ?h4 =
          merge_fields grow_double ?m1 ?c [?m1] (snd (MergeWith grow_double ?m1 ?ov ?h4))"
    by (rule MergeWith_pair_overflow1) simp_all
  also have "\<dots> = merge_fields grow_double ?m1 ?c [?m1] ?h5"
    by (simp only: 5 snd_conv)
  also have "\<dots> = (?m2, ?h6)"
    by (simp add: eval_defs word_sless_alt Let_def)
  finally have 6: "MergeWith grow_double ?m1 ?c ?h4 = (?m2, ?h6)" .
  have merged: "Merge grow_double ?a [?b, ?c] ?h3 = (?m2, ?h6)"
    by (simp only: Merge_def foldl.simps prod.case 4 6)
  have 7: "fresh wide_token ?h6 = (?z, ?h7)"
    by (simp add: wide_token_def alloc_def)
  have 8: "MergeWith grow_double ?m1 ?z ?h7 = (?d2, ?h8)"
    by (simp add: MergeWith_leaf eval_defs word_sless_alt Let_def)
  have "MergeWith grow_double ?m2 ?z ?h7 =
          merge_fields grow_double ?m2 ?z [?m1] (snd (MergeWith grow_double ?m1 ?z ?h7))"
    by (rule MergeWith_own_overflow1) simp_all
  also have "\<dots> = merge_fields grow_double ?m2 ?z [?m1] ?h8"
    by (simp only: 8 snd_conv)
  also have "\<dots> = (?r, ?h9)"
    by (simp add: eval_defs word_sless_alt Let_def)
  finally have 9: "MergeWith grow_double ?m2 ?z ?h7 = (?r, ?h9)" .
  have before: "Offsets (contents ?h7 ?m2) =
      [\<lparr>Start = 0, End = 1\<rparr>, \<lparr>Start = 1, End = 2\<rparr>, \<lparr>Start = 2, End = 3\<rparr>,
       \<lparr>Start = 3, End = 4\<rparr>]"
    by (simp add: elems_def array_at_def)
  have other: "Offsets (contents ?h7 ?z) = [\<lparr>Start = 0, End = 2\<rparr>]"
    by (simp add: elems_def array_at_def)
  have after: "Offsets (contents ?h9 ?r) =
      [\<lparr>Start = 0, End = 1\<rparr>, \<lparr>Start = 1, End = 2\<rparr>, \<lparr>Start = 2, End = 3\<rparr>,
       \<lparr>Start = 3, End = 5\<rparr>, \<lparr>Start = 5, End = 7\<rparr>]"
    by (simp add: elems_def array_at_def)
  show ?thesis
    by (simp only: 1 2 3 merged 7 9 Let_def prod.case before other after)
qed

section \<open>MergeWith: what the appends leave as it was\<close>









































section \<open>MergeWith: the word indices\<close>






section \<open>Truncate: slices, parts and the split\<close>

lemma go_slice_from_nat:
  "go_slice_from s (int k) = (if k \<le> length s then Inr (drop k s) else Inl SliceBoundsOutOfRange)"
  by (simp add: go_slice_from_def)

lemma go_slice_from_diff:
  "go_slice_from s (int (length s) - int st) =
     (if st \<le> length s then Inr (lastn st s) else Inl SliceBoundsOutOfRange)"
  by (simp add: go_slice_from_def lastn_def nat_diff_distrib')

lemma getCurrentPart_eq:
  "getCurrentPart p c sz idx st =
     (if st \<le> length p \<and> idx * sz \<le> length c then Inr (window_of st sz idx p c)
      else Inl SliceBoundsOutOfRange)"
proof (cases "(idx + 1) * sz > length c")
  case True
  then have "take sz (drop (idx * sz) c) = drop (idx * sz) c"
    by simp
  then show ?thesis
    using True
    unfolding getCurrentPart_def go_slice_from_nat go_slice_from_diff
    by (simp add: and_then_def window_of_def)
next
  case False
  then have le: "(idx + 1) * sz \<le> length c" by simp
  then have le2: "idx * sz \<le> length c" by simp
  have d: "(idx + 1) * sz - idx * sz = sz" by simp
  show ?thesis
    using False le2 le
    unfolding getCurrentPart_def go_slice_from_nat go_slice_from_diff go_slice_def d
    by (simp add: and_then_def window_of_def)
qed

lemma split_at_eq:
  "split_at s m = (if m \<le> length s then Inr (take m s, drop m s) else Inl SliceBoundsOutOfRange)"
  by (simp add: split_at_def and_then_def go_slice_def)

lemma length_window_of:
  "st \<le> length p \<Longrightarrow> length (window_of st sz k p c) = st + min sz (length c - k * sz)"
  by (simp add: window_of_def lastn_def min_def)

lemma overflow_part_Inr:
  assumes "overflow_part prev ov ps k st = Inr w"
  shows "Ids w = window_of st ps k (Ids prev) (oIds ov)"
    and "TypeIds w = window_of st ps k (TypeIds prev) (oTypeIds ov)"
    and "Tokens w = window_of st ps k (Tokens prev) (oTokens ov)"
    and "Offsets w = window_of st ps k (Offsets prev) (oOffsets ov)"
    and "SpecialTokenMask w = window_of st ps k (SpecialTokenMask prev) (oSpeToks ov)"
    and "AttentionMask w = window_of st ps k (AttentionMask prev) (oAttent ov)"
    and "Words w = window_of st ps k (Words prev) (oWords ov)"
    and "Overflowing w = []"
  using assms unfolding overflow_part_def getCurrentPart_eq and_then_def
  by (auto split: if_splits)

lemma overflow_part_Inl:
  "overflow_part prev ov ps k st = Inl err \<Longrightarrow> err = SliceBoundsOutOfRange"
  unfolding overflow_part_def getCurrentPart_eq and_then_def
  by (auto split: if_splits)

lemma overflow_part_ok:
  assumes "all_lengths prev m" "st \<le> m" "ov_lengths ov n" "k * ps \<le> n"
  shows "\<exists>w. overflow_part prev ov ps k st = Inr w \<and> all_lengths w (st + min ps (n - k * ps))"
  using assms unfolding overflow_part_def getCurrentPart_eq and_then_def
  by (simp add: all_lengths_def ov_lengths_def length_window_of)

lemma truncate_split_Inr:
  assumes "truncate_split e m = Inr (e1, ov)"
  shows "e1 = Encoding (take m (Ids e)) (take m (TypeIds e)) (take m (Tokens e))
           (take m (Offsets e)) (take m (SpecialTokenMask e)) (take m (AttentionMask e))
           (Overflowing e) (take m (Words e))"
    and "ov = \<lparr>oIds = drop m (Ids e), oTypeIds = drop m (TypeIds e), oTokens = drop m (Tokens e),
           oOffsets = drop m (Offsets e), oSpeToks = drop m (SpecialTokenMask e),
           oAttent = drop m (AttentionMask e), oWords = drop m (Words e)\<rparr>"
    and "m \<le> length (Words e)"
  using assms unfolding truncate_split_def split_at_eq and_then_def
  by (auto split: if_splits)

lemma truncate_split_Inl:
  "truncate_split e m = Inl err \<Longrightarrow> err = SliceBoundsOutOfRange"
  unfolding truncate_split_def split_at_eq and_then_def
  by (auto split: if_splits)

lemma truncate_split_ok:
  assumes "all_lengths e L" "m \<le> L"
  shows "\<exists>e1 ov. truncate_split e m = Inr (e1, ov) \<and> all_lengths e1 m \<and> ov_lengths ov (L - m)"
  using assms unfolding truncate_split_def split_at_eq and_then_def
  by (simp add: all_lengths_def ov_lengths_def)

section \<open>Truncate: the loop\<close>

lemma ceil_step:
  assumes "0 < ps" "ps * k < (n::nat)"
  shows "(n - ps * k + ps - 1) div ps = Suc ((n - ps * (k + 1) + ps - 1) div ps)"
proof (cases "ps * (k + 1) \<le> n")
  case True
  define m where "m = n - ps * (k + 1) + ps - 1"
  have "n - ps * k + ps - 1 = m + ps"
    using assms True by (simp add: m_def algebra_simps)
  then have "(n - ps * k + ps - 1) div ps = (m + ps) div ps"
    by (rule arg_cong)
  also have "\<dots> = Suc (m div ps)"
    using assms by (subst div_add_self2) simp_all
  finally show ?thesis
    by (simp only: m_def)
next
  case False
  define x where "x = n - ps * k + ps - 1"
  have "n - ps * (k + 1) = 0"
    using False by simp
  then have r: "(n - ps * (k + 1) + ps - 1) div ps = 0"
    using assms by simp
  have "ps \<le> x" "x < 2 * ps"
    using False assms by (simp_all add: x_def algebra_simps)
  then have "x div ps = 1"
    by (intro div_nat_eqI) simp_all
  then show ?thesis
    unfolding x_def r by simp
qed

lemma loop_stop:
  "\<not> ps * k < length (oIds ov) \<Longrightarrow> truncate_loop ov ps st k prev acc = Some (Inr acc)"
  by (subst truncate_loop.simps) simp

lemma loop_fail:
  "ps * k < length (oIds ov) \<Longrightarrow> overflow_part prev ov ps k st = Inl err \<Longrightarrow>
   truncate_loop ov ps st k prev acc = Some (Inl err)"
  by (subst truncate_loop.simps) simp

lemma loop_step:
  "ps * k < length (oIds ov) \<Longrightarrow> overflow_part prev ov ps k st = Inr part \<Longrightarrow>
   truncate_loop ov ps st k prev acc = truncate_loop ov ps st (k + 1) part (acc @ [part])"
  by (subst truncate_loop.simps) simp

lemma loop_measure:
  "0 < ps \<Longrightarrow> ps * k < (n::nat) \<Longrightarrow> n - ps * (k + 1) < n - ps * k"
  by simp

lemma loop_terminates:
  assumes "0 < ps"
  shows "\<exists>r. truncate_loop ov ps st k prev acc = Some r"
proof (induction "length (oIds ov) - ps * k" arbitrary: k prev acc rule: less_induct)
  case less
  show ?case
  proof (cases "ps * k < length (oIds ov)")
    case False
    then show ?thesis by (simp add: loop_stop)
  next
    case True
    show ?thesis
    proof (cases "overflow_part prev ov ps k st")
      case (Inl err)
      then show ?thesis using True by (simp add: loop_fail)
    next
      case (Inr part)
      have "\<exists>r. truncate_loop ov ps st (k + 1) part (acc @ [part]) = Some r"
        by (rule less.hyps) (rule loop_measure [OF assms True])
      then show ?thesis using True Inr by (simp add: loop_step)
    qed
  qed
qed

lemma loop_errors:
  assumes "0 < ps"
  shows "truncate_loop ov ps st k prev acc = Some (Inl err) \<Longrightarrow> err = SliceBoundsOutOfRange"
proof (induction "length (oIds ov) - ps * k" arbitrary: k prev acc rule: less_induct)
  case less
  show ?case
  proof (cases "ps * k < length (oIds ov)")
    case False
    then show ?thesis using less.prems by (simp add: loop_stop)
  next
    case True
    show ?thesis
    proof (cases "overflow_part prev ov ps k st")
      case (Inl err')
      then show ?thesis using True less.prems by (simp add: loop_fail overflow_part_Inl)
    next
      case (Inr part)
      have "truncate_loop ov ps st (k + 1) part (acc @ [part]) = Some (Inl err)"
        using less.prems True Inr by (simp add: loop_step)
      then show ?thesis
        by (rule less.hyps [OF loop_measure [OF assms True]])
    qed
  qed
qed

lemma loop_succeeds:
  assumes "0 < ps" "ov_lengths ov n"
  shows "all_lengths prev m \<Longrightarrow> st \<le> m \<Longrightarrow>
         \<exists>ovs. truncate_loop ov ps st k prev acc = Some (Inr ovs)"
proof (induction "length (oIds ov) - ps * k" arbitrary: k prev acc m rule: less_induct)
  case less
  have n: "length (oIds ov) = n" using assms(2) by (simp add: ov_lengths_def)
  show ?case
  proof (cases "ps * k < length (oIds ov)")
    case False
    then show ?thesis by (simp add: loop_stop)
  next
    case True
    then have "k * ps \<le> n" using n by (simp add: mult.commute)
    from overflow_part_ok [OF less.prems(1) less.prems(2) assms(2) this]
    obtain w where w: "overflow_part prev ov ps k st = Inr w"
      and wl: "all_lengths w (st + min ps (n - k * ps))" by blast
    have "\<exists>ovs. truncate_loop ov ps st (k + 1) w (acc @ [w]) = Some (Inr ovs)"
      by (rule less.hyps [OF loop_measure [OF assms(1) True] wl]) simp
    then show ?thesis using True w by (simp add: loop_step)
  qed
qed

lemma loop_result:
  assumes "0 < ps"
  shows "truncate_loop ov ps st k prev acc = Some (Inr ovs) \<Longrightarrow>
         \<exists>new. ovs = acc @ new \<and>
           length new = (length (oIds ov) - ps * k + ps - 1) div ps \<and>
           (\<forall>j<length new.
              overflow_part (if j = 0 then prev else new ! (j - 1)) ov ps (k + j) st = Inr (new ! j))"
proof (induction "length (oIds ov) - ps * k" arbitrary: k prev acc rule: less_induct)
  case less
  show ?case
  proof (cases "ps * k < length (oIds ov)")
    case False
    then have "ovs = acc" using less.prems by (simp add: loop_stop)
    moreover have "(length (oIds ov) - ps * k + ps - 1) div ps = 0"
      using False assms by simp
    ultimately show ?thesis by simp
  next
    case True
    show ?thesis
    proof (cases "overflow_part prev ov ps k st")
      case (Inl err)
      then show ?thesis using True less.prems by (simp add: loop_fail)
    next
      case (Inr part)
      have "truncate_loop ov ps st (k + 1) part (acc @ [part]) = Some (Inr ovs)"
        using less.prems True Inr by (simp add: loop_step)
      from less.hyps [OF loop_measure [OF assms True] this]
      obtain new where new: "ovs = (acc @ [part]) @ new"
        and len: "length new = (length (oIds ov) - ps * (k + 1) + ps - 1) div ps"
        and parts: "\<forall>j<length new.
              overflow_part (if j = 0 then part else new ! (j - 1)) ov ps (k + 1 + j) st = Inr (new ! j)"
        by blast
      have 1: "ovs = acc @ (part # new)" using new by simp
      have 2: "length (part # new) = (length (oIds ov) - ps * k + ps - 1) div ps"
        using len ceil_step [OF assms True] by simp
      have 3: "overflow_part (if j = 0 then prev else (part # new) ! (j - 1)) ov ps (k + j) st =
                 Inr ((part # new) ! j)" if "j < length (part # new)" for j
      proof (cases j)
        case 0
        then show ?thesis using Inr by simp
      next
        case (Suc i)
        then have "i < length new" using that by simp
        then have "overflow_part (if i = 0 then part else new ! (i - 1)) ov ps (k + 1 + i) st = Inr (new ! i)"
          using parts by blast
        then show ?thesis using Suc by (cases i) simp_all
      qed
      show ?thesis using 1 2 3 by blast
    qed
  qed
qed

section \<open>Truncate: results\<close>

lemma Truncate_long:
  assumes "0 < maxLen" "stride < maxLen" "maxLen < length (Ids e)"
  shows "Truncate e maxLen stride =
     (case truncate_split e maxLen of
        Inl err \<Rightarrow> Some (Inl err)
      | Inr (e1, ov) \<Rightarrow>
          (case truncate_loop ov (maxLen - stride) stride 0 e1 [] of
             None \<Rightarrow> None
           | Some (Inl err) \<Rightarrow> Some (Inl err)
           | Some (Inr overflowing) \<Rightarrow> Some (Inr (set_Overflowing e1 overflowing))))"
  using assms by (simp add: Truncate_def)

lemma Truncate_returns:
  assumes "0 < maxLen" "stride < maxLen"
  shows "\<exists>x. Truncate e maxLen stride = Some x \<and> x \<noteq> Inl InvalidArgument"
proof (cases "maxLen < length (Ids e)")
  case False
  then show ?thesis using assms by (simp add: Truncate_def)
next
  case True
  note long = Truncate_long [OF assms True]
  show ?thesis
  proof (cases "truncate_split e maxLen")
    case (Inl err)
    then show ?thesis using long truncate_split_Inl [OF Inl] by simp
  next
    case (Inr p)
    obtain e1 ov where p: "p = (e1, ov)" by (cases p)
    have ps: "0 < maxLen - stride" using assms by simp
    from loop_terminates [OF ps] obtain y where
      y: "truncate_loop ov (maxLen - stride) stride 0 e1 [] = Some y" by blast
    show ?thesis
    proof (cases y)
      case (Inl err)
      then have "err = SliceBoundsOutOfRange" using y loop_errors [OF ps] by blast
      then show ?thesis using long Inr p y Inl by simp
    next
      case (Inr ovs)
      then show ?thesis using long \<open>truncate_split e maxLen = Inr p\<close> p y by simp
    qed
  qed
qed

lemma Truncate_result:
  assumes "0 < maxLen" "stride < maxLen" "maxLen < length (Ids e)"
    and "Truncate e maxLen stride = Some (Inr r)"
  shows "Ids r = take maxLen (Ids e)"
    and "TypeIds r = take maxLen (TypeIds e)"
    and "Tokens r = take maxLen (Tokens e)"
    and "Offsets r = take maxLen (Offsets e)"
    and "SpecialTokenMask r = take maxLen (SpecialTokenMask e)"
    and "AttentionMask r = take maxLen (AttentionMask e)"
    and "Words r = take maxLen (Words e)"
    and "length (Overflowing r) =
           (length (Ids e) - maxLen + (maxLen - stride) - 1) div (maxLen - stride)"
    and "\<forall>k<length (Overflowing r).
           is_window maxLen stride k e (if k = 0 then r else Overflowing r ! (k - 1))
             (Overflowing r ! k)"
proof -
  note long = Truncate_long [OF assms(1-3)]
  have ps: "0 < maxLen - stride" using assms by simp
  obtain e1 ov where sp: "truncate_split e maxLen = Inr (e1, ov)"
    using assms(4) long by (cases "truncate_split e maxLen") (auto split: sum.splits)
  note e1 = truncate_split_Inr(1) [OF sp] and ov = truncate_split_Inr(2) [OF sp]
  obtain ovs where lp: "truncate_loop ov (maxLen - stride) stride 0 e1 [] = Some (Inr ovs)"
    and r: "r = set_Overflowing e1 ovs"
    using assms(4) long sp by (auto split: option.splits sum.splits)
  from loop_result [OF ps lp] have
    len: "length ovs = (length (oIds ov) + (maxLen - stride) - 1) div (maxLen - stride)"
    and parts: "\<forall>j<length ovs.
        overflow_part (if j = 0 then e1 else ovs ! (j - 1)) ov (maxLen - stride) j stride =
          Inr (ovs ! j)"
    by auto
  show "Ids r = take maxLen (Ids e)" "TypeIds r = take maxLen (TypeIds e)"
    "Tokens r = take maxLen (Tokens e)" "Offsets r = take maxLen (Offsets e)"
    "SpecialTokenMask r = take maxLen (SpecialTokenMask e)"
    "AttentionMask r = take maxLen (AttentionMask e)" "Words r = take maxLen (Words e)"
    by (simp_all add: r e1 set_Overflowing_def)
  have ovr: "Overflowing r = ovs" by (simp add: r set_Overflowing_def)
  show "length (Overflowing r) =
           (length (Ids e) - maxLen + (maxLen - stride) - 1) div (maxLen - stride)"
    using len by (simp add: ovr ov)
  show "\<forall>k<length (Overflowing r).
           is_window maxLen stride k e (if k = 0 then r else Overflowing r ! (k - 1))
             (Overflowing r ! k)"
  proof (intro allI impI)
    fix k assume "k < length (Overflowing r)"
    then have k: "k < length ovs" by (simp add: ovr)
    let ?prev = "if k = 0 then e1 else ovs ! (k - 1)"
    have part: "overflow_part ?prev ov (maxLen - stride) k stride = Inr (ovs ! k)"
      using parts k by blast
    have w: "is_window maxLen stride k e ?prev (ovs ! k)"
      unfolding is_window_def using overflow_part_Inr [OF part] by (simp add: ov)
    have same: "is_window maxLen stride k e r w = is_window maxLen stride k e e1 w" for w
      by (simp add: is_window_def r set_Overflowing_def)
    show "is_window maxLen stride k e (if k = 0 then r else Overflowing r ! (k - 1))
             (Overflowing r ! k)"
    proof (cases "k = 0")
      case True
      then show ?thesis using w same by (simp add: ovr)
    next
      case False
      then show ?thesis using w by (simp add: ovr)
    qed
  qed
qed

lemma Truncate_succeeds:
  assumes "0 < maxLen" "stride < maxLen" "maxLen < L" "all_lengths e L"
  shows "\<exists>r. Truncate e maxLen stride = Some (Inr r)"
proof -
  have L: "length (Ids e) = L" using assms(4) by (simp add: all_lengths_def)
  note long = Truncate_long [OF assms(1,2), of e, unfolded L, OF assms(3)]
  have ps: "0 < maxLen - stride" using assms by simp
  from truncate_split_ok [OF assms(4), of maxLen] assms(3)
  obtain e1 ov where sp: "truncate_split e maxLen = Inr (e1, ov)"
    and l1: "all_lengths e1 maxLen" and lo: "ov_lengths ov (L - maxLen)"
    by auto
  from loop_succeeds [OF ps lo l1, of stride 0 "[]"] assms(2)
  obtain ovs where "truncate_loop ov (maxLen - stride) stride 0 e1 [] = Some (Inr ovs)"
    by auto
  then show ?thesis using long sp by simp
qed

section \<open>Truncate: the claims\<close>

lemma all_lengths_ten_tokens: "all_lengths ten_tokens 10"
  by (simp add: all_lengths_def ten_tokens_def)

text \<open>
  C3. \<^verbatim>\<open>Words\<close> is optional (line 24, and the note of line 164); \<^verbatim>\<open>NewEncoding\<close> called
  without words and \<^verbatim>\<open>DefaultEncoding\<close> leave it \<^verbatim>\<open>nil\<close>. Truncate slices it like the
  other arrays: on an Encoding of ten tokens that tracks no words, with \<open>maxLen = 4\<close> and
  \<open>stride = 2\<close>, the run ends in a panic at \<^verbatim>\<open>e.Words[0:maxLen]\<close> (line 273), and neither
  a primary Encoding nor a window is returned.
\<close>

theorem Truncate_without_words_panics:
  "Truncate (set_Words ten_tokens []) 4 2 = Some (Inl SliceBoundsOutOfRange)"
  by (simp add: Truncate_def truncate_split_def split_at_eq and_then_def set_Words_def
      ten_tokens_def)

text \<open>
  The windows, where every array reaches \<^verbatim>\<open>maxLen\<close>. For an Encoding whose seven arrays,
  words included, all have length \<open>L > maxLen\<close>, and \<open>0 < maxLen\<close>, \<open>stride < maxLen\<close>:
  Truncate returns an Encoding whose arrays are the prefixes of length \<open>maxLen\<close>, with
  \<open>\<lceil>(L - maxLen) / partSize\<rceil>\<close> overflow windows, where \<open>partSize = maxLen - stride\<close>;
  window \<open>k\<close> is, in every array, the last \<open>stride\<close> elements of window \<open>k - 1\<close> (of the
  returned prefix for \<open>k = 0\<close>) followed by up to \<open>partSize\<close> elements of the part past
  \<open>maxLen\<close>, from offset \<open>k * partSize\<close>.
\<close>

theorem Truncate_windows:
  assumes "0 < maxLen" "stride < maxLen" "maxLen < L" "all_lengths e L"
  shows "\<exists>r. Truncate e maxLen stride = Some (Inr r) \<and>
     Ids r = take maxLen (Ids e) \<and> TypeIds r = take maxLen (TypeIds e) \<and>
     Tokens r = take maxLen (Tokens e) \<and> Offsets r = take maxLen (Offsets e) \<and>
     SpecialTokenMask r = take maxLen (SpecialTokenMask e) \<and>
     AttentionMask r = take maxLen (AttentionMask e) \<and> Words r = take maxLen (Words e) \<and>
     length (Overflowing r) = (L - maxLen + (maxLen - stride) - 1) div (maxLen - stride) \<and>
     (\<forall>k<length (Overflowing r).
        is_window maxLen stride k e (if k = 0 then r else Overflowing r ! (k - 1))
          (Overflowing r ! k))"
proof -
  have L: "length (Ids e) = L" using assms(4) by (simp add: all_lengths_def)
  then have long: "maxLen < length (Ids e)" using assms(3) by simp
  from Truncate_succeeds [OF assms] obtain r where r: "Truncate e maxLen stride = Some (Inr r)"
    by blast
  note res = Truncate_result [OF assms(1,2) long r]
  show ?thesis
    using r res(1-7) res(8) [unfolded L] res(9) by blast
qed

text \<open>
  The example of the specification, derived from the theorem: ids 0 to 9, \<open>maxLen = 4\<close>,
  \<open>stride = 2\<close>.
\<close>

theorem Truncate_windows_witness:
  "\<exists>r. Truncate ten_tokens 4 2 = Some (Inr r) \<and> Ids r = [0, 1, 2, 3] \<and>
     map Ids (Overflowing r) = [[2, 3, 4, 5], [4, 5, 6, 7], [6, 7, 8, 9]]"
proof -
  have ids: "Ids ten_tokens = [0, 1, 2, 3, 4, 5, 6, 7, 8, 9]"
    by (simp add: ten_tokens_def)
  from Truncate_windows [of 4 2 10 ten_tokens, OF _ _ _ all_lengths_ten_tokens]
  obtain r where r: "Truncate ten_tokens 4 2 = Some (Inr r)"
    and prim: "Ids r = take 4 (Ids ten_tokens)"
    and len: "length (Overflowing r) = (10 - 4 + (4 - 2) - 1) div (4 - 2)"
    and win: "\<forall>k<length (Overflowing r).
        is_window 4 2 k ten_tokens (if k = 0 then r else Overflowing r ! (k - 1))
          (Overflowing r ! k)"
    by auto
  have len3: "length (Overflowing r) = Suc (Suc (Suc 0))"
    using len by simp
  then obtain a b c where ovs: "Overflowing r = [a, b, c]"
    by (auto simp: length_Suc_conv)
  have p: "Ids r = [0, 1, 2, 3]"
    using prim by (simp add: ids)
  have "is_window 4 2 0 ten_tokens r a"
    using win [rule_format, of 0] by (simp add: ovs)
  then have a: "Ids a = [2, 3, 4, 5]"
    by (simp add: is_window_def window_of_def lastn_def p ids)
  have "is_window 4 2 1 ten_tokens a b"
    using win [rule_format, of 1] by (simp add: ovs)
  then have b: "Ids b = [4, 5, 6, 7]"
    by (simp add: is_window_def window_of_def lastn_def a ids)
  have "is_window 4 2 2 ten_tokens b c"
    using win [rule_format, of 2] by (simp add: ovs)
  then have c: "Ids c = [6, 7, 8, 9]"
    by (simp add: is_window_def window_of_def lastn_def b ids)
  show ?thesis
    using r p a b c by (simp add: ovs)
qed

text \<open>
  C7. Valid arguments do not make Truncate return: with \<open>maxLen = 1\<close> and \<open>stride = 0\<close>, on
  an Encoding of two tokens that tracks no words (\<^verbatim>\<open>Words\<close> is \<^verbatim>\<open>nil\<close>), the run ends in
  the same panic of line 273; the caller gets neither an Encoding nor an error value.
\<close>

theorem Truncate_valid_arguments_panics:
  "Truncate (set_Words same_word []) 1 0 = Some (Inl SliceBoundsOutOfRange)"
  by (simp add: Truncate_def truncate_split_def split_at_eq and_then_def set_Words_def
      same_word_def)

text \<open>
  The validation itself. With \<open>stride \<ge> maxLen\<close> or \<open>maxLen = 0\<close> Truncate returns the
  error, for every Encoding, and the caller's Encoding is as it was. With \<open>0 < maxLen\<close>
  and \<open>stride < maxLen\<close> the run ends and what comes back is never that error; for an
  Encoding whose seven arrays have one length it is an Encoding.
\<close>

theorem Truncate_argument_validation:
  "(maxLen \<le> stride \<or> maxLen = 0 \<longrightarrow>
      call_by_value (\<lambda>e. Truncate e maxLen stride) e = (Some (Inl InvalidArgument), e)) \<and>
   (0 < maxLen \<and> stride < maxLen \<longrightarrow>
      (\<exists>x. Truncate e maxLen stride = Some x \<and> x \<noteq> Inl InvalidArgument)) \<and>
   (0 < maxLen \<and> stride < maxLen \<and> all_lengths e (length (Ids e)) \<longrightarrow>
      (\<exists>r. Truncate e maxLen stride = Some (Inr r)))"
proof (intro conjI impI)
  assume "maxLen \<le> stride \<or> maxLen = 0"
  then show "call_by_value (\<lambda>e. Truncate e maxLen stride) e = (Some (Inl InvalidArgument), e)"
    by (auto simp: call_by_value_def Truncate_def)
next
  assume "0 < maxLen \<and> stride < maxLen"
  then show "\<exists>x. Truncate e maxLen stride = Some x \<and> x \<noteq> Inl InvalidArgument"
    using Truncate_returns by blast
next
  assume a: "0 < maxLen \<and> stride < maxLen \<and> all_lengths e (length (Ids e))"
  show "\<exists>r. Truncate e maxLen stride = Some (Inr r)"
  proof (cases "maxLen < length (Ids e)")
    case True
    then show ?thesis using a Truncate_succeeds by blast
  next
    case False
    then show ?thesis using a by (simp add: Truncate_def)
  qed
qed

theorem Truncate_argument_validation_witness:
  "call_by_value (\<lambda>e. Truncate e 2 2) ten_tokens = (Some (Inl InvalidArgument), ten_tokens) \<and>
   call_by_value (\<lambda>e. Truncate e 0 0) ten_tokens = (Some (Inl InvalidArgument), ten_tokens) \<and>
   (\<exists>x. Truncate ten_tokens 4 2 = Some x \<and> x \<noteq> Inl InvalidArgument) \<and>
   (\<exists>r. Truncate ten_tokens 4 2 = Some (Inr r))"
proof -
  have len: "length (Ids ten_tokens) = 10"
    by (simp add: ten_tokens_def)
  have l: "all_lengths ten_tokens (length (Ids ten_tokens))"
    using all_lengths_ten_tokens by (simp only: len)
  show ?thesis
    using Truncate_argument_validation [of 2 2 ten_tokens]
      Truncate_argument_validation [of 0 0 ten_tokens]
      Truncate_argument_validation [of 4 2 ten_tokens] l
    by simp
qed

text \<open>
  C10. With \<open>0 < maxLen\<close> and \<open>stride < maxLen\<close> the loop ends from every state it can
  be entered in, so Truncate ends on every Encoding; and when it returns an Encoding
  for an input longer than \<open>maxLen\<close>, the loop has made exactly
  \<open>\<lceil>(len - maxLen) / partSize\<rceil>\<close> rounds, one for each window.
\<close>

theorem Truncate_terminates:
  assumes "0 < maxLen" "stride < maxLen"
  shows "(\<exists>y. truncate_loop ov (maxLen - stride) stride partId prevEncoding overflowing = Some y) \<and>
    (\<exists>x. Truncate e maxLen stride = Some x) \<and>
    (\<forall>r. maxLen < length (Ids e) \<and> Truncate e maxLen stride = Some (Inr r) \<longrightarrow>
       length (Overflowing r) =
         (length (Ids e) - maxLen + (maxLen - stride) - 1) div (maxLen - stride))"
proof (intro conjI allI impI)
  have ps: "0 < maxLen - stride" using assms by simp
  show "\<exists>y. truncate_loop ov (maxLen - stride) stride partId prevEncoding overflowing = Some y"
    by (rule loop_terminates [OF ps])
  show "\<exists>x. Truncate e maxLen stride = Some x"
    using Truncate_returns [OF assms] by blast
  fix r assume "maxLen < length (Ids e) \<and> Truncate e maxLen stride = Some (Inr r)"
  then show "length (Overflowing r) =
         (length (Ids e) - maxLen + (maxLen - stride) - 1) div (maxLen - stride)"
    using Truncate_result(8) [OF assms] by blast
qed

theorem Truncate_terminates_witness:
  "(\<exists>x. Truncate ten_tokens 4 2 = Some x) \<and>
   (\<exists>r. Truncate ten_tokens 4 2 = Some (Inr r) \<and> length (Overflowing r) = 3)"
proof -
  have len: "length (Ids ten_tokens) = 10"
    by (simp add: ten_tokens_def)
  from Truncate_succeeds [of 4 2 10 ten_tokens, OF _ _ _ all_lengths_ten_tokens]
  obtain r where r: "Truncate ten_tokens 4 2 = Some (Inr r)"
    by auto
  have t: "(\<exists>x. Truncate ten_tokens 4 2 = Some x) \<and>
    (\<forall>r. 4 < length (Ids ten_tokens) \<and> Truncate ten_tokens 4 2 = Some (Inr r) \<longrightarrow>
       length (Overflowing r) = (length (Ids ten_tokens) - 4 + (4 - 2) - 1) div (4 - 2))"
    using Truncate_terminates [of 4 2 _ _ _ _ ten_tokens] by simp
  then have "length (Overflowing r) = (length (Ids ten_tokens) - 4 + (4 - 2) - 1) div (4 - 2)"
    using r len by simp
  then have "length (Overflowing r) = 3"
    by (simp add: len)
  then show ?thesis using r by blast
qed

section \<open>Where the length invariant holds\<close>

text \<open>
  For Encodings whose seven arrays have one length, as have those of each entry of
  their overflow lists: what Truncate returns and what Pad returns to the right keep the
  property, in the Encoding returned and in each entry of its overflow list. Pad to the
  left is the exception shown above.
\<close>

lemma loop_lengths:
  assumes "0 < ps" "ov_lengths ov n"
  shows "truncate_loop ov ps st k prev acc = Some (Inr ovs) \<Longrightarrow> all_lengths prev m \<Longrightarrow>
         st \<le> m \<Longrightarrow> \<forall>w\<in>set acc. \<exists>l. all_lengths w l \<Longrightarrow>
         \<forall>w\<in>set ovs. \<exists>l. all_lengths w l"
proof (induction "length (oIds ov) - ps * k" arbitrary: k prev acc m rule: less_induct)
  case less
  have n: "length (oIds ov) = n" using assms(2) by (simp add: ov_lengths_def)
  show ?case
  proof (cases "ps * k < length (oIds ov)")
    case False
    then have "ovs = acc" using less.prems(1) by (simp add: loop_stop)
    then show ?thesis using less.prems(4) by simp
  next
    case True
    then have "k * ps \<le> n" using n by (simp add: mult.commute)
    from overflow_part_ok [OF less.prems(2) less.prems(3) assms(2) this]
    obtain w where w: "overflow_part prev ov ps k st = Inr w"
      and wl: "all_lengths w (st + min ps (n - k * ps))" by blast
    have next_run: "truncate_loop ov ps st (k + 1) w (acc @ [w]) = Some (Inr ovs)"
      using less.prems(1) True w by (simp add: loop_step)
    have acc': "\<forall>x\<in>set (acc @ [w]). \<exists>l. all_lengths x l"
      using less.prems(4) wl by auto
    show ?thesis
      by (rule less.hyps [OF loop_measure [OF assms(1) True] next_run wl _ acc']) simp
  qed
qed

lemma Truncate_keeps_lengths:
  assumes "0 < maxLen" "stride < maxLen" "all_lengths e L"
    and "\<forall>w\<in>set (Overflowing e). \<exists>l. all_lengths w l"
    and "Truncate e maxLen stride = Some (Inr r)"
  shows "(\<exists>l. all_lengths r l) \<and> (\<forall>w\<in>set (Overflowing r). \<exists>l. all_lengths w l)"
proof (cases "maxLen < length (Ids e)")
  case False
  then have "r = e" using assms(1,2,5) by (simp add: Truncate_def)
  then show ?thesis using assms(3,4) by blast
next
  case True
  have L: "length (Ids e) = L" using assms(3) by (simp add: all_lengths_def)
  note long = Truncate_long [OF assms(1,2) True]
  have ps: "0 < maxLen - stride" using assms by simp
  from truncate_split_ok [OF assms(3), of maxLen] True L
  obtain e1 ov where sp: "truncate_split e maxLen = Inr (e1, ov)"
    and l1: "all_lengths e1 maxLen" and lo: "ov_lengths ov (L - maxLen)"
    by auto
  obtain ovs where lp: "truncate_loop ov (maxLen - stride) stride 0 e1 [] = Some (Inr ovs)"
    and r: "r = set_Overflowing e1 ovs"
    using assms(5) long sp by (auto split: option.splits sum.splits)
  have "\<forall>w\<in>set ovs. \<exists>l. all_lengths w l"
    using loop_lengths [OF ps lo lp l1] assms(2) by simp
  moreover have "all_lengths r maxLen" "Overflowing r = ovs"
    using l1 by (simp_all add: r set_Overflowing_def all_lengths_def)
  ultimately show ?thesis by auto
qed

lemma pad_right_lengths:
  "all_lengths e n \<Longrightarrow>
   all_lengths (pad_right k e padId padTypeId padToken) (n + k) \<and>
   Overflowing (pad_right k e padId padTypeId padToken) = Overflowing e"
proof (induction k arbitrary: e n)
  case 0
  then show ?case by simp
next
  case (Suc k)
  let ?e' = "Encoding (Ids e @ [padId]) (TypeIds e @ [padTypeId]) (Tokens e @ [padToken])
          (Offsets e @ [\<lparr>Start = 0, End = 0\<rparr>]) (SpecialTokenMask e @ [1])
          (AttentionMask e @ [0]) (Overflowing e) (Words e @ [0])"
  have "all_lengths ?e' (Suc n)" using Suc.prems by (simp add: all_lengths_def)
  from Suc.IH [OF this] show ?case by simp
qed

lemma Pad_Right_keeps_lengths:
  assumes "all_lengths e n" "\<forall>w\<in>set (Overflowing e). \<exists>l. all_lengths w l"
    and "Pad e targetLength padId padTypeId padToken Right = Inr r"
  shows "(\<exists>l. all_lengths r l) \<and> (\<forall>w\<in>set (Overflowing r). \<exists>l. all_lengths w l)"
proof -
  let ?k = "nat (int_of_uint targetLength - int (length (Ids e)))"
  have "r = zeroEncoding \<or> r = pad_right ?k e padId padTypeId padToken"
    using assms(3)
    by (subst (asm) Pad.simps) (auto simp: Right_not_Left Let_def split: option.splits if_splits)
  moreover have "all_lengths zeroEncoding 0" "Overflowing zeroEncoding = []"
    by (simp_all add: zeroEncoding_def all_lengths_def)
  ultimately show ?thesis
    using pad_right_lengths [OF assms(1), of ?k padId padTypeId padToken] assms(2) by auto
qed

end
